theory Spec2Isabelle
  imports Main "HOL-Library.Multiset"
begin

section \<open>The registry client of docker-registry-pruner\<close>

text \<open>
  A shallow embedding of the Go package \<open>registry\<close> (the HTTP client of the registry API)
  and of the pruning loop of \<open>main\<close>. Go strings are byte strings (\<open>string\<close>), Go's
  \<open>int\<close> and \<open>time.Duration\<close> are \<open>int\<close>, and an instant of \<open>time.Time\<close> is an \<open>int\<close>
  (nanoseconds on the time line; only the order of instants is used). No arithmetic of
  the code can overflow: the one product, \<open>-1 * config.MinAge\<close>, is computed only when
  \<open>MinAge\<close> is positive, and the indices of a string are within its length.
\<close>

subsection \<open>The challenge parser: \<open>extractKeyValuePairs\<close>\<close>

text \<open>
  The source compiles the regular expression \<^verbatim>\<open>(\w+)=\"([^\"]*)\"\<close> and collects every
  match of \<open>FindAllSubmatch\<close>. In Go's syntax \<^verbatim>\<open>\w\<close> is the ASCII class
  \<^verbatim>\<open>[0-9A-Za-z_]\<close> and a negated class matches every other byte, line breaks included.
\<close>

definition isWord :: "char \<Rightarrow> bool" where
  "isWord c \<longleftrightarrow>
     c \<in> set ''0123456789ABCDEFGHIJKLMNOPQRSTUVWXYZ_abcdefghijklmnopqrstuvwxyz''"

definition dquote :: char where
  "dquote = CHR 0x22"

text \<open>
  A match that starts at the head of \<open>s\<close>. The key group is greedy and must be followed by
  \<open>=\<close>, which is no word character, so the key is the whole run of word characters; the
  value group must be followed by a quote, so it is the whole run of non-quote bytes. The
  match at a position is therefore unique when it exists. The result is the pair of
  groups and the text after the match.
\<close>

definition matchHere :: "string \<Rightarrow> ((string \<times> string) \<times> string) option" where
  "matchHere s =
     (let k = takeWhile isWord s; r = dropWhile isWord s in
      if k = [] then None
      else (case r of
              e # q # r' \<Rightarrow>
                if e = CHR ''='' \<and> q = dquote then
                  (let v = takeWhile (\<lambda>c. c \<noteq> dquote) r';
                       r'' = dropWhile (\<lambda>c. c \<noteq> dquote) r' in
                   case r'' of [] \<Rightarrow> None | _ # rest \<Rightarrow> Some ((k, v), rest))
                else None
            | _ \<Rightarrow> None))"

text \<open>
  \<open>FindAllSubmatch\<close> with \<open>n = -1\<close>: the leftmost match, then the leftmost match of the
  text after it, and so on. No match is empty, so the search resumes right after a match.
\<close>

function findAllSubmatch :: "string \<Rightarrow> (string \<times> string) list" where
  "findAllSubmatch [] = []"
| "findAllSubmatch (c # cs) =
     (case matchHere (c # cs) of
        Some (kv, rest) \<Rightarrow> kv # findAllSubmatch rest
      | None \<Rightarrow> findAllSubmatch cs)"
  by pat_completeness auto

text \<open>
  The search ends: the text after a match is shorter than the text that was searched.
\<close>

termination
proof (relation "measure length")
  fix c :: char and cs :: string and x2 :: "(string \<times> string) \<times> string"
    and kv :: "string \<times> string" and rest :: string
  assume m: "matchHere (c # cs) = Some x2" and x: "(kv, rest) = x2"
  define s where "s = c # cs"
  define r where "r = dropWhile isWord s"
  have lr: "length r \<le> length s"
    unfolding r_def by (rule length_dropWhile_le)
  from m x have m0: "matchHere s = Some (kv, rest)" by (simp add: s_def)
  then obtain e q r' where r: "r = e # q # r'"
    and m': "(case dropWhile (\<lambda>c. c \<noteq> dquote) r' of [] \<Rightarrow> None
               | _ # rest' \<Rightarrow> Some ((takeWhile isWord s, takeWhile (\<lambda>c. c \<noteq> dquote) r'), rest'))
             = Some (kv, rest)"
    unfolding matchHere_def Let_def r_def
    by (auto split: if_splits list.splits)
  from m' obtain d where d: "dropWhile (\<lambda>c. c \<noteq> dquote) r' = d # rest"
    by (auto split: list.splits)
  have "length (dropWhile (\<lambda>c. c \<noteq> dquote) r') \<le> length r'"
    by (rule length_dropWhile_le)
  with d have "length rest < length r'" by simp
  with r lr have "length rest < length s" by simp
  then show "(rest, c # cs) \<in> measure length" by (simp add: s_def)
qed simp_all

text \<open>The loop over the matches stores each pair in the map; a later key overwrites.\<close>

fun storePairs :: "(string \<times> string) list \<Rightarrow> (string \<rightharpoonup> string) \<Rightarrow> (string \<rightharpoonup> string)" where
  "storePairs [] result = result"
| "storePairs ((k, v) # ms) result = storePairs ms (result(k \<mapsto> v))"

definition extractKeyValuePairs :: "string \<Rightarrow> (string \<rightharpoonup> string)" where
  "extractKeyValuePairs header = storePairs (findAllSubmatch header) Map.empty"

subsection \<open>Errors, panics and results\<close>

text \<open>
  A Go function of the package returns a value and an \<open>error\<close>, or it panics (a slice or
  an index out of range, the \<open>panic\<close> call of \<open>registryRequest\<close>). A panic is no error
  value: no caller tests for it, and it ends the program.
\<close>

datatype error =
    NewRequestError string
  | TransportError string
  | NonSuccessStatus int string string
  | TokenServiceStatus int
  | UnsupportedScheme
  | NoRealm
  | NoService
  | NoScope
  | JSONError
  | CloseError string

datatype panic = SliceBounds | IndexOutOfRange | InvalidManifestVersion nat

datatype 'a result = Ok 'a | Err error | Panic panic

subsection \<open>Strings\<close>

text \<open>\<open>strings.Index\<close> and \<open>strings.LastIndex\<close> for a one-byte separator: \<open>-1\<close> when absent.\<close>

fun stringsIndex :: "string \<Rightarrow> char \<Rightarrow> int" where
  "stringsIndex [] c = - 1"
| "stringsIndex (x # xs) c =
     (if x = c then 0 else (let i = stringsIndex xs c in if i < 0 then - 1 else i + 1))"

fun stringsLastIndex :: "string \<Rightarrow> char \<Rightarrow> int" where
  "stringsLastIndex [] c = - 1"
| "stringsLastIndex (x # xs) c =
     (let i = stringsLastIndex xs c in
      if 0 \<le> i then i + 1 else if x = c then 0 else - 1)"

text \<open>The slice expression \<open>s[b:e]\<close> of a string: it panics unless \<open>0 \<le> b \<le> e \<le> len(s)\<close>.\<close>

definition sliceExpr :: "string \<Rightarrow> int \<Rightarrow> int \<Rightarrow> string result" where
  "sliceExpr s b e =
     (if 0 \<le> b \<and> b \<le> e \<and> e \<le> int (length s)
      then Ok (take (nat (e - b)) (drop (nat b) s))
      else Panic SliceBounds)"

subsection \<open>HTTP messages\<close>

text \<open>
  A request as \<open>registryRequest\<close> and \<open>fetchBearerToken\<close> build it. \<open>SetBasicAuth\<close> and
  \<open>Header.Set("Authorization", ...)\<close> write the same header, so a request carries at most
  one authorization. \<open>QueryN\<close> is the page size that \<open>registryRequest\<close> sets as the query
  parameter \<open>n\<close>.
\<close>

datatype authorization = Basic string string | Bearer string

record request =
  Method :: string
  URL :: string
  QueryN :: "int option"
  Accept :: "string option"
  Authorization :: "authorization option"

text \<open>
  A response: the status, the headers under their canonical keys (\<open>Header.Get\<close> returns
  the first value of a key, and the empty string when the key is absent), the bytes of
  the body, and the error that closing the body returns, if any.
\<close>

record response =
  StatusCode :: int
  Header :: "(string \<times> string) list"
  Body :: string
  CloseErr :: "string option"

definition headerGet :: "response \<Rightarrow> string \<Rightarrow> string" where
  "headerGet resp key = (case map_of (Header resp) key of None \<Rightarrow> [] | Some v \<Rightarrow> v)"

definition wwwAuthenticateHeader :: string where
  "wwwAuthenticateHeader = ''Www-Authenticate''"

type_synonym manifestVersion = nat

definition manifestV1 :: manifestVersion where
  "manifestV1 = 1"

definition manifestV2 :: manifestVersion where
  "manifestV2 = 2"

definition manifestContentType :: "manifestVersion \<rightharpoonup> string" where
  "manifestContentType =
     [manifestV1 \<mapsto> ''application/vnd.docker.distribution.manifest.v1+prettyjws'',
      manifestV2 \<mapsto> ''application/vnd.docker.distribution.manifest.v2+json'']"

subsection \<open>JSON values and the standard library\<close>

datatype json =
    JNull
  | JBool bool
  | JNumber string
  | JString string
  | JArray "json list"
  | JObject "(string \<times> json) list"

text \<open>
  What the program takes from outside, as parameters: the HTTP client (\<open>client.Do\<close>,
  a step of the network \<open>'w\<close>), the clock, and the functions of Go's standard library
  that the code calls and that are not embedded here.
  \<^item> \<open>Do\<close>: \<open>a.client.Do(req)\<close>, an error message or a response, and the network after it.
  \<^item> \<open>Now\<close>: \<open>time.Now()\<close>.
  \<^item> \<open>newRequest\<close>: the error of \<open>http.NewRequest(method, url, nil)\<close>, if any.
  \<^item> \<open>decodeJSON\<close>: the JSON value that \<open>json.NewDecoder(body).Decode\<close> reads from the
    stream, \<open>None\<close> on a syntax error. \<open>unmarshalJSON\<close>: the same for \<open>json.Unmarshal\<close>.
  \<^item> \<open>equalFold\<close>: the case-insensitive match of an object key with a field name.
  \<^item> \<open>unmarshalTime\<close>: \<open>time.Time.UnmarshalJSON\<close> on a value other than \<open>null\<close>.
  \<^item> \<open>queryEscape\<close>: \<open>url.QueryEscape\<close>.
  \<^item> \<open>rangeOrder\<close>: the order in which a \<open>range\<close> loop visits the keys of a map. Go
    leaves the order open and visits every key of a map that the body does not change
    once; the properties that need this of \<open>rangeOrder\<close> assume it.
\<close>

record 'w env =
  Do :: "request \<Rightarrow> 'w \<Rightarrow> (string + response) \<times> 'w"
  Now :: "'w \<Rightarrow> int"
  newRequest :: "string \<Rightarrow> string \<Rightarrow> string option"
  decodeJSON :: "string \<Rightarrow> json option"
  unmarshalJSON :: "string \<Rightarrow> json option"
  equalFold :: "string \<Rightarrow> string \<Rightarrow> bool"
  unmarshalTime :: "json \<Rightarrow> int option"
  queryEscape :: "string \<Rightarrow> string"
  rangeOrder :: "'w \<Rightarrow> (string \<rightharpoonup> string list) \<Rightarrow> string list"

text \<open>
  Decoding a JSON value into a struct, as \<open>encoding/json\<close> does: an object sets the
  fields whose name a key matches (exactly or case-insensitively), \<open>null\<close> leaves the
  struct as it is, every other value is a type error. A key that matches no field is
  skipped, and a field that no key matches keeps its zero value. A string field takes a
  string, keeps its value on \<open>null\<close>, and rejects every other value. The values of a
  repeated key are decoded in order, each into what the field holds by then.
\<close>

definition members :: "'w env \<Rightarrow> string \<Rightarrow> (string \<times> json) list \<Rightarrow> json list" where
  "members E name kvs = map snd (filter (\<lambda>(k, v). k = name \<or> equalFold E k name) kvs)"

fun stringOrNull :: "json \<Rightarrow> bool" where
  "stringOrNull JNull = True"
| "stringOrNull (JString s) = True"
| "stringOrNull _ = False"

fun lastString :: "json list \<Rightarrow> string \<Rightarrow> string" where
  "lastString [] cur = cur"
| "lastString (JString s # vs) cur = lastString vs s"
| "lastString (_ # vs) cur = lastString vs cur"

definition stringField :: "json list \<Rightarrow> string result" where
  "stringField vs = (if list_all stringOrNull vs then Ok (lastString vs []) else Err JSONError)"

text \<open>
  A list field is a slice, and a JSON array is decoded into the slice that the field
  holds: the element at index \<open>i\<close> of the JSON array is decoded into the element at index
  \<open>i\<close> of the array of the slice, which is grown with zero values when it is too short,
  and the slice then has the length of the JSON array. So an element that the JSON value
  leaves as it is (\<open>null\<close> for a string) keeps what an earlier value of the same key
  wrote at its index, also when a shorter JSON array came in between. An empty JSON
  array gives a new empty slice and \<open>null\<close> gives the nil slice, both with a new array.

  The field is modelled by the pair of the elements written to its array so far and the
  length of the slice; \<open>writeElems elem xs old\<close> decodes the elements \<open>xs\<close> over the array
  \<open>old\<close> by the function \<open>elem\<close> of the element type, whose zero value is the empty
  string. \<open>ok\<close> is the test that an element has the type of the field.
\<close>

fun stringElem :: "string \<Rightarrow> json \<Rightarrow> string" where
  "stringElem cur (JString s) = s"
| "stringElem cur _ = cur"

fun writeElems :: "(string \<Rightarrow> json \<Rightarrow> string) \<Rightarrow> json list \<Rightarrow> string list \<Rightarrow> string list" where
  "writeElems elem [] old = old"
| "writeElems elem (x # xs) [] = elem [] x # writeElems elem xs []"
| "writeElems elem (x # xs) (y # old) = elem y x # writeElems elem xs old"

fun sliceValue ::
  "(json \<Rightarrow> bool) \<Rightarrow> (string \<Rightarrow> json \<Rightarrow> string) \<Rightarrow> json \<Rightarrow> string list \<times> nat
     \<Rightarrow> (string list \<times> nat) option" where
  "sliceValue ok elem JNull cur = Some ([], 0)"
| "sliceValue ok elem (JArray xs) cur =
     (if \<not> list_all ok xs then None
      else if xs = [] then Some ([], 0)
      else Some (writeElems elem xs (fst cur), length xs))"
| "sliceValue ok elem _ cur = None"

fun lastSlice ::
  "(json \<Rightarrow> bool) \<Rightarrow> (string \<Rightarrow> json \<Rightarrow> string) \<Rightarrow> json list \<Rightarrow> string list \<times> nat
     \<Rightarrow> string list result" where
  "lastSlice ok elem [] cur = Ok (take (snd cur) (fst cur))"
| "lastSlice ok elem (v # vs) cur =
     (case sliceValue ok elem v cur of
        None \<Rightarrow> Err JSONError
      | Some cur' \<Rightarrow> lastSlice ok elem vs cur')"

definition stringsField :: "json list \<Rightarrow> string list result" where
  "stringsField vs = lastSlice stringOrNull stringElem vs ([], 0)"

subsection \<open>The client: \<open>API\<close>\<close>

text \<open>
  The struct \<open>API\<close> without its \<open>client\<close>, which is the parameter \<open>Do\<close>. The state of a
  run is the struct, the network behind the client, the requests handed to the client so
  far (oldest first), and the lines that \<open>main\<close> has logged.
\<close>

record API =
  host :: string
  user :: string
  bearerToken :: string
  pass :: string
  pageSize :: int

datatype entry =
    LogConfiguration
  | LogStarting
  | LogInspecting string
  | LogError error
  | LogWouldHaveDeleted string string "string list"
  | LogDeleting string string "string list"
  | LogDone

record 'w state =
  api :: API
  world :: 'w
  sent :: "request list"
  logged :: "entry list"

definition NewAPI :: "string \<Rightarrow> API" where
  "NewAPI h = \<lparr>host = h, user = [], bearerToken = [], pass = [], pageSize = 0\<rparr>"

definition SetPageSize :: "int \<Rightarrow> API \<Rightarrow> API" where
  "SetPageSize n a = a\<lparr>pageSize := n\<rparr>"

definition SetCredentials :: "string \<Rightarrow> string \<Rightarrow> API \<Rightarrow> API" where
  "SetCredentials u p a = a\<lparr>user := u, pass := p\<rparr>"

definition clientDo :: "'w env \<Rightarrow> request \<Rightarrow> 'w state \<Rightarrow> response result \<times> 'w state" where
  "clientDo E req s =
     (case Do E req (world s) of
        (Inl e, w) \<Rightarrow> (Err (TransportError e), s\<lparr>world := w, sent := sent s @ [req]\<rparr>)
      | (Inr resp, w) \<Rightarrow> (Ok resp, s\<lparr>world := w, sent := sent s @ [req]\<rparr>))"

text \<open>
  The request of \<open>registryRequest\<close>: basic credentials when a user is set, replaced by the
  bearer token when one is held.
\<close>

definition registryReq :: "API \<Rightarrow> string \<Rightarrow> string \<Rightarrow> string \<Rightarrow> request" where
  "registryReq a method path contentType =
     \<lparr>Method = method,
      URL = host a @ path,
      QueryN = (if pageSize a > 0 then Some (pageSize a) else None),
      Accept = Some contentType,
      Authorization =
        (if bearerToken a \<noteq> [] then Some (Bearer (bearerToken a))
         else if user a \<noteq> [] then Some (Basic (user a) (pass a))
         else None)\<rparr>"

definition registryRequest ::
  "'w env \<Rightarrow> string \<Rightarrow> string \<Rightarrow> manifestVersion \<Rightarrow> 'w state \<Rightarrow> response result \<times> 'w state" where
  "registryRequest E method path version s =
     (case newRequest E method (host (api s) @ path) of
        Some e \<Rightarrow> (Err (NewRequestError e), s)
      | None \<Rightarrow>
          (case manifestContentType version of
             None \<Rightarrow> (Panic (InvalidManifestVersion version), s)
           | Some contentType \<Rightarrow> clientDo E (registryReq (api s) method path contentType) s))"

text \<open>
  \<open>params.Encode()\<close> writes the keys in sorted order, \<open>scope\<close> before \<open>service\<close>.
\<close>

definition tokenRequestURLFromResponse :: "'w env \<Rightarrow> response \<Rightarrow> string result" where
  "tokenRequestURLFromResponse E deniedResponse =
     (let header = headerGet deniedResponse wwwAuthenticateHeader in
      case sliceExpr header 0 7 of
        Panic p \<Rightarrow> Panic p
      | Err e \<Rightarrow> Err e
      | Ok prefix \<Rightarrow>
          if prefix \<noteq> ''Bearer '' then Err UnsupportedScheme
          else
            (let instructions = extractKeyValuePairs header in
             case instructions ''realm'' of
               None \<Rightarrow> Err NoRealm
             | Some realm \<Rightarrow>
                 (case instructions ''service'' of
                    None \<Rightarrow> Err NoService
                  | Some service \<Rightarrow>
                      (case instructions ''scope'' of
                         None \<Rightarrow> Err NoScope
                       | Some scope \<Rightarrow>
                           Ok (realm @ ''?'' @ ''scope='' @ queryEscape E scope
                                 @ ''&service='' @ queryEscape E service)))))"

definition decodeToken :: "'w env \<Rightarrow> string \<Rightarrow> string result" where
  "decodeToken E body =
     (case decodeJSON E body of
        None \<Rightarrow> Err JSONError
      | Some JNull \<Rightarrow> Ok []
      | Some (JObject kvs) \<Rightarrow> stringField (members E ''token'' kvs)
      | Some _ \<Rightarrow> Err JSONError)"

definition tokenReq :: "API \<Rightarrow> string \<Rightarrow> request" where
  "tokenReq a u =
     \<lparr>Method = ''GET'',
      URL = u,
      QueryN = None,
      Accept = None,
      Authorization = (if user a \<noteq> [] then Some (Basic (user a) (pass a)) else None)\<rparr>"

definition fetchBearerToken :: "'w env \<Rightarrow> response \<Rightarrow> 'w state \<Rightarrow> string result \<times> 'w state" where
  "fetchBearerToken E deniedResponse s =
     (case tokenRequestURLFromResponse E deniedResponse of
        Err e \<Rightarrow> (Err e, s)
      | Panic p \<Rightarrow> (Panic p, s)
      | Ok u \<Rightarrow>
          (case newRequest E ''GET'' u of
             Some e \<Rightarrow> (Err (NewRequestError e), s)
           | None \<Rightarrow>
               (case clientDo E (tokenReq (api s) u) s of
                  (Err e, s1) \<Rightarrow> (Err e, s1)
                | (Panic p, s1) \<Rightarrow> (Panic p, s1)
                | (Ok resp, s1) \<Rightarrow>
                    if StatusCode resp \<ge> 300 then (Err (TokenServiceStatus (StatusCode resp)), s1)
                    else (decodeToken E (Body resp), s1))))"

text \<open>The last test of \<open>request\<close>, on the response it is about to return.\<close>

definition checkStatus :: "string \<Rightarrow> string \<Rightarrow> response \<Rightarrow> response result" where
  "checkStatus method path resp =
     (if StatusCode resp \<ge> 300 then Err (NonSuccessStatus (StatusCode resp) method path)
      else Ok resp)"

definition request ::
  "'w env \<Rightarrow> string \<Rightarrow> string \<Rightarrow> manifestVersion \<Rightarrow> 'w state \<Rightarrow> response result \<times> 'w state" where
  "request E method path version s =
     (case registryRequest E method path version s of
        (Err e, s1) \<Rightarrow> (Err e, s1)
      | (Panic p, s1) \<Rightarrow> (Panic p, s1)
      | (Ok resp, s1) \<Rightarrow>
          if StatusCode resp < 300 then (Ok resp, s1)
          else if StatusCode resp = 401 \<and> headerGet resp wwwAuthenticateHeader \<noteq> [] then
            (case fetchBearerToken E resp s1 of
               (Err e, s2) \<Rightarrow> (Err e, s2)
             | (Panic p, s2) \<Rightarrow> (Panic p, s2)
             | (Ok token, s2) \<Rightarrow>
                 (case registryRequest E method path version
                         (s2\<lparr>api := (api s2)\<lparr>bearerToken := token\<rparr>\<rparr>) of
                    (Err e, s3) \<Rightarrow> (Err e, s3)
                  | (Panic p, s3) \<Rightarrow> (Panic p, s3)
                  | (Ok resp', s3) \<Rightarrow> (checkStatus method path resp', s3)))
          else (checkStatus method path resp, s1))"

definition nextPagePath :: "response \<Rightarrow> string result" where
  "nextPagePath resp =
     (let link = headerGet resp ''Link'' in
      if link = [] then Ok []
      else
        (let begin = stringsIndex link CHR ''<'' + 1;
             end = stringsLastIndex link CHR ''>''
         in sliceExpr link begin end))"

subsection \<open>Catalog, tags, digests and manifests\<close>

definition decodeCatalog :: "'w env \<Rightarrow> string \<Rightarrow> string list result" where
  "decodeCatalog E body =
     (case decodeJSON E body of
        None \<Rightarrow> Err JSONError
      | Some JNull \<Rightarrow> Ok []
      | Some (JObject kvs) \<Rightarrow> stringsField (members E ''repositories'' kvs)
      | Some _ \<Rightarrow> Err JSONError)"

text \<open>
  The loop of \<open>GetRepositories\<close>. A registry that names a next page on every page keeps it
  running for ever, so the loop takes fuel, one unit per page: \<open>None\<close> says that the
  fuel ran out before the loop ended.
\<close>

fun catalogLoop ::
  "'w env \<Rightarrow> nat \<Rightarrow> string \<Rightarrow> string list \<Rightarrow> 'w state \<Rightarrow> string list result option \<times> 'w state" where
  "catalogLoop E 0 path repositories s =
     (if path = [] then (Some (Ok repositories), s) else (None, s))"
| "catalogLoop E (Suc fuel) path repositories s =
     (if path = [] then (Some (Ok repositories), s)
      else
        (case request E ''GET'' path manifestV2 s of
           (Err e, s1) \<Rightarrow> (Some (Err e), s1)
         | (Panic p, s1) \<Rightarrow> (Some (Panic p), s1)
         | (Ok resp, s1) \<Rightarrow>
             (case decodeCatalog E (Body resp) of
                Err e \<Rightarrow> (Some (Err e), s1)
              | Panic p \<Rightarrow> (Some (Panic p), s1)
              | Ok names \<Rightarrow>
                  (case nextPagePath resp of
                     Err e \<Rightarrow> (Some (Err e), s1)
                   | Panic p \<Rightarrow> (Some (Panic p), s1)
                   | Ok path' \<Rightarrow>
                       (case CloseErr resp of
                          Some e \<Rightarrow> (Some (Err (CloseError e)), s1)
                        | None \<Rightarrow> catalogLoop E fuel path' (repositories @ names) s1)))))"

definition GetRepositories :: "'w env \<Rightarrow> nat \<Rightarrow> 'w state \<Rightarrow> string list result option \<times> 'w state" where
  "GetRepositories E fuel s = catalogLoop E fuel ''/v2/_catalog'' [] s"

definition decodeTags :: "'w env \<Rightarrow> string \<Rightarrow> string list result" where
  "decodeTags E body =
     (case decodeJSON E body of
        None \<Rightarrow> Err JSONError
      | Some JNull \<Rightarrow> Ok []
      | Some (JObject kvs) \<Rightarrow> stringsField (members E ''tags'' kvs)
      | Some _ \<Rightarrow> Err JSONError)"

definition GetTags :: "'w env \<Rightarrow> string \<Rightarrow> 'w state \<Rightarrow> string list result \<times> 'w state" where
  "GetTags E repository s =
     (case request E ''GET'' (''/v2/'' @ repository @ ''/tags/list'') manifestV2 s of
        (Err e, s1) \<Rightarrow> (Err e, s1)
      | (Panic p, s1) \<Rightarrow> (Panic p, s1)
      | (Ok resp, s1) \<Rightarrow> (decodeTags E (Body resp), s1))"

definition GetDigest :: "'w env \<Rightarrow> string \<Rightarrow> string \<Rightarrow> 'w state \<Rightarrow> string result \<times> 'w state" where
  "GetDigest E repository tag s =
     (case request E ''HEAD'' (''/v2/'' @ repository @ ''/manifests/'' @ tag) manifestV2 s of
        (Err e, s1) \<Rightarrow> (Err e, s1)
      | (Panic p, s1) \<Rightarrow> (Panic p, s1)
      | (Ok resp, s1) \<Rightarrow> (Ok (headerGet resp ''Docker-Content-Digest''), s1))"

text \<open>
  The body of the loop of \<open>GetTagsIndexedByDigest\<close> after the digest is known: an absent
  key is first bound to the empty list, then the tag is appended.
\<close>

definition appendTag ::
  "(string \<rightharpoonup> string list) \<Rightarrow> string \<Rightarrow> string \<Rightarrow> (string \<rightharpoonup> string list)" where
  "appendTag result digest tag =
     (let result1 = (if result digest = None then result(digest \<mapsto> []) else result)
      in result1(digest \<mapsto> (case result1 digest of None \<Rightarrow> [] | Some ts \<Rightarrow> ts) @ [tag]))"

fun groupTags ::
  "'w env \<Rightarrow> string \<Rightarrow> string list \<Rightarrow> (string \<rightharpoonup> string list) \<Rightarrow> 'w state
     \<Rightarrow> (string \<rightharpoonup> string list) result \<times> 'w state" where
  "groupTags E repository [] result s = (Ok result, s)"
| "groupTags E repository (tag # tags) result s =
     (case GetDigest E repository tag s of
        (Err e, s1) \<Rightarrow> (Err e, s1)
      | (Panic p, s1) \<Rightarrow> (Panic p, s1)
      | (Ok digest, s1) \<Rightarrow> groupTags E repository tags (appendTag result digest tag) s1)"

definition GetTagsIndexedByDigest ::
  "'w env \<Rightarrow> string \<Rightarrow> 'w state \<Rightarrow> (string \<rightharpoonup> string list) result \<times> 'w state" where
  "GetTagsIndexedByDigest E repository s =
     (case GetTags E repository s of
        (Err e, s1) \<Rightarrow> (Err e, s1)
      | (Panic p, s1) \<Rightarrow> (Panic p, s1)
      | (Ok tags, s1) \<Rightarrow> groupTags E repository tags Map.empty s1)"

text \<open>
  The v1 manifest: the list \<open>history\<close> of structs with the one string field
  \<open>v1Compatibility\<close>. An element of the list is a struct, so an object is decoded into
  the element that the slice holds at its index, and \<open>null\<close> leaves that element as it
  is. The decoder returns the strings of the list.
\<close>

fun historyOK :: "'w env \<Rightarrow> json \<Rightarrow> bool" where
  "historyOK E JNull = True"
| "historyOK E (JObject kvs) = list_all stringOrNull (members E ''v1Compatibility'' kvs)"
| "historyOK E _ = False"

fun historyElem :: "'w env \<Rightarrow> string \<Rightarrow> json \<Rightarrow> string" where
  "historyElem E cur (JObject kvs) = lastString (members E ''v1Compatibility'' kvs) cur"
| "historyElem E cur _ = cur"

definition decodeManifest :: "'w env \<Rightarrow> string \<Rightarrow> string list result" where
  "decodeManifest E body =
     (case decodeJSON E body of
        None \<Rightarrow> Err JSONError
      | Some JNull \<Rightarrow> Ok []
      | Some (JObject kvs) \<Rightarrow>
          lastSlice (historyOK E) (historyElem E) (members E ''history'' kvs) ([], 0)
      | Some _ \<Rightarrow> Err JSONError)"

text \<open>The zero \<open>time.Time\<close>, the first instant of year 1, in nanoseconds before 1970.\<close>

definition zeroTime :: int where
  "zeroTime = - 62135596800000000000"

fun lastTime :: "'w env \<Rightarrow> json list \<Rightarrow> int \<Rightarrow> int result" where
  "lastTime E [] cur = Ok cur"
| "lastTime E (v # vs) cur =
     (if v = JNull then lastTime E vs cur
      else (case unmarshalTime E v of None \<Rightarrow> Err JSONError | Some t \<Rightarrow> lastTime E vs t))"

definition decodeHistoryItem :: "'w env \<Rightarrow> string \<Rightarrow> int result" where
  "decodeHistoryItem E v1Compatibility =
     (case unmarshalJSON E v1Compatibility of
        None \<Rightarrow> Err JSONError
      | Some JNull \<Rightarrow> Ok zeroTime
      | Some (JObject kvs) \<Rightarrow> lastTime E (members E ''created'' kvs) zeroTime
      | Some _ \<Rightarrow> Err JSONError)"

definition GetManifestDigestAndCreated ::
  "'w env \<Rightarrow> string \<Rightarrow> string \<Rightarrow> 'w state \<Rightarrow> (string \<times> int) result \<times> 'w state" where
  "GetManifestDigestAndCreated E repository tag s =
     (case request E ''GET'' (''/v2/'' @ repository @ ''/manifests/'' @ tag) manifestV1 s of
        (Err e, s1) \<Rightarrow> (Err e, s1)
      | (Panic p, s1) \<Rightarrow> (Panic p, s1)
      | (Ok resp, s1) \<Rightarrow>
          (case decodeManifest E (Body resp) of
             Err e \<Rightarrow> (Err e, s1)
           | Panic p \<Rightarrow> (Panic p, s1)
           | Ok history \<Rightarrow>
               (case history of
                  [] \<Rightarrow> (Panic IndexOutOfRange, s1)
                | h # _ \<Rightarrow>
                    (case decodeHistoryItem E h of
                       Err e \<Rightarrow> (Err e, s1)
                     | Panic p \<Rightarrow> (Panic p, s1)
                     | Ok created \<Rightarrow>
                         (Ok (headerGet resp ''Docker-Content-Digest'', created), s1)))))"

definition GetManifestCreated ::
  "'w env \<Rightarrow> string \<Rightarrow> string \<Rightarrow> 'w state \<Rightarrow> int result \<times> 'w state" where
  "GetManifestCreated E repository tag s =
     (case GetManifestDigestAndCreated E repository tag s of
        (Err e, s1) \<Rightarrow> (Err e, s1)
      | (Panic p, s1) \<Rightarrow> (Panic p, s1)
      | (Ok (d, t), s1) \<Rightarrow> (Ok t, s1))"

definition DeleteManifest :: "'w env \<Rightarrow> string \<Rightarrow> string \<Rightarrow> 'w state \<Rightarrow> unit result \<times> 'w state" where
  "DeleteManifest E repository digest s =
     (case request E ''DELETE'' (''/v2/'' @ repository @ ''/manifests/'' @ digest) manifestV2 s of
        (Err e, s1) \<Rightarrow> (Err e, s1)
      | (Panic p, s1) \<Rightarrow> (Panic p, s1)
      | (Ok resp, s1) \<Rightarrow> (Ok (), s1))"

subsection \<open>The pruning loop: \<open>main\<close>\<close>

text \<open>
  The configuration of package \<open>config\<close>. The two compiled regular expressions are the
  predicates that their \<open>MatchString\<close> computes.
\<close>

record config =
  Host :: string
  User :: string
  Pass :: string
  Repos :: "string \<Rightarrow> bool"
  Tags :: "string \<Rightarrow> bool"
  MinAge :: int
  Dry :: bool

fun allMatch :: "string list \<Rightarrow> (string \<Rightarrow> bool) \<Rightarrow> bool" where
  "allMatch [] expr = True"
| "allMatch (s # slice) expr = (if \<not> expr s then False else allMatch slice expr)"

definition logPrint :: "entry \<Rightarrow> 'w state \<Rightarrow> 'w state" where
  "logPrint l s = s\<lparr>logged := logged s @ [l]\<rparr>"

text \<open>
  The end of the body of the inner loop, lines 55 to 63: the dry run logs, the live run
  logs and deletes. The loops return \<open>Some p\<close> when a panic \<open>p\<close> ends the program and
  \<open>None\<close> when they go on.
\<close>

definition deleteOrLog ::
  "'w env \<Rightarrow> config \<Rightarrow> string \<Rightarrow> string \<Rightarrow> string list \<Rightarrow> 'w state \<Rightarrow> panic option \<times> 'w state" where
  "deleteOrLog E cfg repository digest tags s =
     (if Dry cfg then (None, logPrint (LogWouldHaveDeleted repository digest tags) s)
      else
        (case DeleteManifest E repository digest
                (logPrint (LogDeleting repository digest tags) s) of
           (Err e, s1) \<Rightarrow> (None, logPrint (LogError e) s1)
         | (Panic p, s1) \<Rightarrow> (Some p, s1)
         | (Ok u, s1) \<Rightarrow> (None, s1)))"

text \<open>The body of the inner loop, for one digest and its tags.\<close>

definition pruneGroup ::
  "'w env \<Rightarrow> config \<Rightarrow> string \<Rightarrow> string \<Rightarrow> string list \<Rightarrow> 'w state \<Rightarrow> panic option \<times> 'w state" where
  "pruneGroup E cfg repository digest tags s =
     (if \<not> allMatch tags (Tags cfg) then (None, s)
      else if MinAge cfg > 0 then
        (case tags of
           [] \<Rightarrow> (Some IndexOutOfRange, s)
         | tag0 # _ \<Rightarrow>
             (case GetManifestCreated E repository tag0 s of
                (Err e, s1) \<Rightarrow> (None, logPrint (LogError e) s1)
              | (Panic p, s1) \<Rightarrow> (Some p, s1)
              | (Ok created, s1) \<Rightarrow>
                  (let latestAcceptableCreated = Now E (world s1) + (- 1) * MinAge cfg in
                   if created > latestAcceptableCreated then (None, s1)
                   else deleteOrLog E cfg repository digest tags s1)))
      else deleteOrLog E cfg repository digest tags s)"

text \<open>
  The inner loop visits the keys of the map in the order that \<open>rangeOrder\<close> gives; a key
  that the map does not hold is passed over.
\<close>

fun pruneGroups ::
  "'w env \<Rightarrow> config \<Rightarrow> string \<Rightarrow> (string \<rightharpoonup> string list) \<Rightarrow> string list \<Rightarrow> 'w state
     \<Rightarrow> panic option \<times> 'w state" where
  "pruneGroups E cfg repository m [] s = (None, s)"
| "pruneGroups E cfg repository m (digest # ds) s =
     (case m digest of
        None \<Rightarrow> pruneGroups E cfg repository m ds s
      | Some tags \<Rightarrow>
          (case pruneGroup E cfg repository digest tags s of
             (Some p, s1) \<Rightarrow> (Some p, s1)
           | (None, s1) \<Rightarrow> pruneGroups E cfg repository m ds s1))"

text \<open>The body of the outer loop, for one repository.\<close>

definition pruneRepository ::
  "'w env \<Rightarrow> config \<Rightarrow> string \<Rightarrow> 'w state \<Rightarrow> panic option \<times> 'w state" where
  "pruneRepository E cfg repository s =
     (if \<not> Repos cfg repository then (None, s)
      else
        (case GetTagsIndexedByDigest E repository (logPrint (LogInspecting repository) s) of
           (Err e, s1) \<Rightarrow> (None, logPrint (LogError e) s1)
         | (Panic p, s1) \<Rightarrow> (Some p, s1)
         | (Ok tagsIndexedByDigest, s1) \<Rightarrow>
             pruneGroups E cfg repository tagsIndexedByDigest
               (rangeOrder E (world s1) tagsIndexedByDigest) s1))"

fun pruneRepositories ::
  "'w env \<Rightarrow> config \<Rightarrow> string list \<Rightarrow> 'w state \<Rightarrow> panic option \<times> 'w state" where
  "pruneRepositories E cfg [] s = (None, s)"
| "pruneRepositories E cfg (repository # rs) s =
     (case pruneRepository E cfg repository s of
        (Some p, s1) \<Rightarrow> (Some p, s1)
      | (None, s1) \<Rightarrow> pruneRepositories E cfg rs s1)"

text \<open>
  How a run ends: \<open>main\<close> returns, \<open>log.Fatal\<close> exits, a panic, or the fuel of the catalog
  loop ran out.
\<close>

datatype exit = Done | Fatal error | Panicked panic | OutOfFuel

definition initialState :: "config \<Rightarrow> 'w \<Rightarrow> 'w state" where
  "initialState cfg w =
     \<lparr>api = (if User cfg \<noteq> [] then SetCredentials (User cfg) (Pass cfg) (NewAPI (Host cfg))
              else NewAPI (Host cfg)),
      world = w,
      sent = [],
      logged = [LogConfiguration, LogStarting]\<rparr>"

definition main :: "'w env \<Rightarrow> config \<Rightarrow> nat \<Rightarrow> 'w \<Rightarrow> exit \<times> 'w state" where
  "main E cfg fuel w =
     (case GetRepositories E fuel (initialState cfg w) of
        (None, s1) \<Rightarrow> (OutOfFuel, s1)
      | (Some (Err e), s1) \<Rightarrow> (Fatal e, logPrint (LogError e) s1)
      | (Some (Panic p), s1) \<Rightarrow> (Panicked p, s1)
      | (Some (Ok repositories), s1) \<Rightarrow>
          (case pruneRepositories E cfg repositories s1 of
             (Some p, s2) \<Rightarrow> (Panicked p, s2)
           | (None, s2) \<Rightarrow> (Done, logPrint LogDone s2)))"

section \<open>Notions of the properties\<close>

subsection \<open>Challenge headers\<close>







subsection \<open>Pages of the catalog\<close>

text \<open>
  \<open>linksTo link next\<close>: \<open>next\<close> is the text between the first \<open><\<close> and the last \<open>>\<close> of
  \<open>link\<close>. \<open>catalogPages E s path pages s'\<close>: starting in state \<open>s\<close> with the request of
  \<open>path\<close>, the registry sends the pages whose name lists are \<open>pages\<close>, in this order, each
  but the last with a \<open>Link\<close> header that links to the path of the next request, and the
  last without a \<open>Link\<close> header; \<open>s'\<close> is the state after the last page.
\<close>

definition linksTo :: "string \<Rightarrow> string \<Rightarrow> bool" where
  "linksTo link next \<longleftrightarrow>
     (\<exists>pre post. link = pre @ [CHR ''<''] @ next @ [CHR ''>''] @ post
        \<and> CHR ''<'' \<notin> set pre \<and> CHR ''>'' \<notin> set post)"

inductive catalogPages ::
  "'w env \<Rightarrow> 'w state \<Rightarrow> string \<Rightarrow> string list list \<Rightarrow> 'w state \<Rightarrow> bool" where
  final: "path \<noteq> [] \<Longrightarrow> request E ''GET'' path manifestV2 s = (Ok resp, s')
          \<Longrightarrow> decodeCatalog E (Body resp) = Ok names \<Longrightarrow> CloseErr resp = None
          \<Longrightarrow> headerGet resp ''Link'' = []
          \<Longrightarrow> catalogPages E s path [names] s'"
| linked: "path \<noteq> [] \<Longrightarrow> request E ''GET'' path manifestV2 s = (Ok resp, s1)
          \<Longrightarrow> decodeCatalog E (Body resp) = Ok names \<Longrightarrow> CloseErr resp = None
          \<Longrightarrow> linksTo (headerGet resp ''Link'') next \<Longrightarrow> next \<noteq> []
          \<Longrightarrow> catalogPages E s1 next pages s'
          \<Longrightarrow> catalogPages E s path (names # pages) s'"

subsection \<open>Errors and requests\<close>

text \<open>The errors of the transport: the request could not be built or could not be sent.\<close>

fun transportError :: "error \<Rightarrow> bool" where
  "transportError (NewRequestError m) = True"
| "transportError (TransportError m) = True"
| "transportError _ = False"

text \<open>
  A request to the registry carries an \<open>Accept\<close> header, which \<open>registryRequest\<close> always
  adds; the request to the token service carries none.
\<close>

definition isRegistryRequest :: "request \<Rightarrow> bool" where
  "isRegistryRequest r \<longleftrightarrow> Accept r \<noteq> None"

subsection \<open>Tags and digests\<close>

text \<open>
  \<open>resolveTags\<close> looks up the digest of each tag in order, as the loop of
  \<open>GetTagsIndexedByDigest\<close> does, and returns the digests, one per tag. \<open>tagsOf d pairs\<close> are
  the tags paired with the digest \<open>d\<close> in a list of digest and tag pairs, in order.
\<close>

fun resolveTags ::
  "'w env \<Rightarrow> string \<Rightarrow> string list \<Rightarrow> 'w state \<Rightarrow> string list result \<times> 'w state" where
  "resolveTags E repository [] s = (Ok [], s)"
| "resolveTags E repository (tag # tags) s =
     (case GetDigest E repository tag s of
        (Err e, s1) \<Rightarrow> (Err e, s1)
      | (Panic p, s1) \<Rightarrow> (Panic p, s1)
      | (Ok digest, s1) \<Rightarrow>
          (case resolveTags E repository tags s1 of
             (Err e, s2) \<Rightarrow> (Err e, s2)
           | (Panic p, s2) \<Rightarrow> (Panic p, s2)
           | (Ok digests, s2) \<Rightarrow> (Ok (digest # digests), s2)))"

definition tagsOf :: "string \<Rightarrow> (string \<times> string) list \<Rightarrow> string list" where
  "tagsOf d pairs = map snd (filter (\<lambda>p. fst p = d) pairs)"

definition tagList :: "(string \<rightharpoonup> string list) \<Rightarrow> string \<Rightarrow> string list" where
  "tagList m d = (case m d of None \<Rightarrow> [] | Some ts \<Rightarrow> ts)"

fun appendTags ::
  "(string \<rightharpoonup> string list) \<Rightarrow> (string \<times> string) list \<Rightarrow> (string \<rightharpoonup> string list)" where
  "appendTags m [] = m"
| "appendTags m ((d, t) # pairs) = appendTags (appendTag m d t) pairs"

subsection \<open>Deletions\<close>

text \<open>
  \<open>noDelete s\<close>: no request handed to the client so far has the method \<open>DELETE\<close>. Every
  function of the client but \<open>DeleteManifest\<close> keeps it so, and so does the pruning loop
  of a dry run.
\<close>

definition noDelete :: "'w state \<Rightarrow> bool" where
  "noDelete s \<longleftrightarrow> list_all (\<lambda>r. Method r \<noteq> ''DELETE'') (sent s)"


text \<open>
  \<open>oldEnough E cfg repository tags s\<close>: no minimum age is configured, or the creation
  time of the first tag of the group is read without an error and is not after
  \<open>now - MinAge\<close>.
\<close>

definition oldEnough :: "'w env \<Rightarrow> config \<Rightarrow> string \<Rightarrow> string list \<Rightarrow> 'w state \<Rightarrow> bool" where
  "oldEnough E cfg repository tags s \<longleftrightarrow>
     MinAge cfg \<le> 0
     \<or> (\<exists>tag0 rest created s1. tags = tag0 # rest
           \<and> GetManifestCreated E repository tag0 s = (Ok created, s1)
           \<and> created \<le> Now E (world s1) - MinAge cfg)"


section \<open>Registries for the instances\<close>

text \<open>
  The instances below run the client against a registry that answers every request by
  a function of the request. The JSON decoder is a table from the bodies that the
  registry sends to their values, the time decoder is a table too, keys match fields
  exactly, \<open>http.NewRequest\<close> accepts every URL, query escaping changes
  nothing, and a \<open>range\<close> loop visits the keys of a map in the order of the list \<open>keys\<close>.
\<close>

definition testEnv ::
  "(request \<Rightarrow> string + response) \<Rightarrow> (string \<times> json) list \<Rightarrow> (string \<times> int) list \<Rightarrow> int
     \<Rightarrow> string list \<Rightarrow> unit env" where
  "testEnv serve table stamps now keys =
     \<lparr>Do = (\<lambda>req w. (serve req, w)),
      Now = (\<lambda>w. now),
      newRequest = (\<lambda>m u. None),
      decodeJSON = map_of table,
      unmarshalJSON = map_of table,
      equalFold = (\<lambda>a b. a = b),
      unmarshalTime = (\<lambda>v. case v of JString t \<Rightarrow> map_of stamps t | _ \<Rightarrow> None),
      queryEscape = (\<lambda>s. s),
      rangeOrder = (\<lambda>w m. filter (\<lambda>k. m k \<noteq> None) keys)\<rparr>"

definition testState :: "unit state" where
  "testState = \<lparr>api = NewAPI ''http://localhost:5000'', world = (), sent = [], logged = []\<rparr>"

definition reply :: "int \<Rightarrow> (string \<times> string) list \<Rightarrow> string \<Rightarrow> response" where
  "reply code hs body = \<lparr>StatusCode = code, Header = hs, Body = body, CloseErr = None\<rparr>"

definition catalogTable :: "(string \<times> json) list" where
  \<open>catalogTable =
     [(''{"repositories":["a","b"]}'', JObject [(''repositories'', JArray [JString ''a'', JString ''b''])]),
      (''{"repositories":["c"]}'', JObject [(''repositories'', JArray [JString ''c''])])]\<close>

definition catalogServer :: "request \<Rightarrow> string + response" where
  \<open>catalogServer req =
     (if URL req = ''http://localhost:5000/v2/_catalog''
      then Inr (reply 200 [(''Link'', ''</v2/_catalog?last=b&n=2>; rel="next"'')]
                  ''{"repositories":["a","b"]}'')
      else if URL req = ''http://localhost:5000/v2/_catalog?last=b&n=2''
      then Inr (reply 200 [] ''{"repositories":["c"]}'')
      else Inr (reply 404 [] []))\<close>

definition catalogEnv :: "unit env" where
  "catalogEnv = testEnv catalogServer catalogTable [] 0 []"

definition getReq :: "string \<Rightarrow> request" where
  "getReq path = registryReq (NewAPI ''http://localhost:5000'') ''GET'' path
     ''application/vnd.docker.distribution.manifest.v2+json''"

text \<open>The v1 manifest with an empty history, and the requests of the instances.\<close>

definition manifestTable :: "(string \<times> json) list" where
  \<open>manifestTable = [(''{"history":[]}'', JObject [(''history'', JArray [])])]\<close>

definition getV1Req :: "string \<Rightarrow> request" where
  "getV1Req path = registryReq (NewAPI ''http://localhost:5000'') ''GET'' path
     ''application/vnd.docker.distribution.manifest.v1+prettyjws''"

text \<open>
  A registry that sends the challenge of the specification, and the answers of two token
  services: one with the field \<open>token\<close>, one with the field \<open>access_token\<close> only.
\<close>

definition denied :: response where
  \<open>denied = reply 401
     [(''Www-Authenticate'',
       ''Bearer realm="https://auth.example/token",service="registry",scope="registry:catalog:*"'')] []\<close>

definition tokenURL :: string where
  "tokenURL = ''https://auth.example/token?scope=registry:catalog:*&service=registry''"

definition tokenTable :: "(string \<times> json) list" where
  \<open>tokenTable =
     [(''{"token":"abc"}'', JObject [(''token'', JString ''abc'')]),
      (''{"access_token":"abc"}'', JObject [(''access_token'', JString ''abc'')]),
      (''{"repositories":["a","b"]}'', JObject [(''repositories'', JArray [JString ''a'', JString ''b''])])]\<close>

text \<open>
  A registry that wants a bearer token: it answers the challenge \<open>denied\<close> unless the
  request carries the token \<open>abc\<close>, and its token service, at \<open>tokenURL\<close>, sends the
  body \<open>tokenBody\<close>.
\<close>

definition authServer :: "string \<Rightarrow> request \<Rightarrow> string + response" where
  \<open>authServer tokenBody req =
     (if URL req = tokenURL then Inr (reply 200 [] tokenBody)
      else if Authorization req = Some (Bearer ''abc'')
      then Inr (reply 200 [] ''{"repositories":["a","b"]}'')
      else Inr denied)\<close>

definition authEnv :: "string \<Rightarrow> unit env" where
  "authEnv tokenBody = testEnv (authServer tokenBody) tokenTable [] 0 []"

text \<open>
  A registry with the repository \<open>app\<close> of the specification: the tags \<open>v1\<close> and \<open>v2\<close> name
  the manifest \<open>sha256:aaa\<close>, the tag \<open>latest\<close> names \<open>sha256:bbb\<close>. The v1 manifests hold
  a JSON text inside a JSON string; their bodies are named here, not spelled out, and the
  table gives their values.
\<close>

definition demoServer :: "request \<Rightarrow> string + response" where
  \<open>demoServer req =
     (if URL req = ''http://localhost:5000/v2/_catalog''
      then Inr (reply 200 [] ''{"repositories":["app"]}'')
      else if URL req = ''http://localhost:5000/v2/app/tags/list''
      then Inr (reply 200 [] ''{"tags":["v1","v2","latest"]}'')
      else if URL req = ''http://localhost:5000/v2/app/manifests/v1''
            \<or> URL req = ''http://localhost:5000/v2/app/manifests/v2''
      then Inr (reply 200 [(''Docker-Content-Digest'', ''sha256:aaa'')] ''manifest aaa'')
      else if URL req = ''http://localhost:5000/v2/app/manifests/latest''
      then Inr (reply 200 [(''Docker-Content-Digest'', ''sha256:bbb'')] ''manifest bbb'')
      else if URL req = ''http://localhost:5000/v2/app/manifests/sha256:aaa''
            \<and> Method req = ''DELETE''
      then Inr (reply 202 [] [])
      else Inr (reply 404 [] []))\<close>

definition demoTable :: "(string \<times> json) list" where
  \<open>demoTable =
     [(''{"repositories":["app"]}'', JObject [(''repositories'', JArray [JString ''app''])]),
      (''{"tags":["v1","v2","latest"]}'',
        JObject [(''tags'', JArray [JString ''v1'', JString ''v2'', JString ''latest''])]),
      (''manifest aaa'',
        JObject [(''history'', JArray [JObject [(''v1Compatibility'', JString ''{"created":"A"}'')]])]),
      (''manifest bbb'',
        JObject [(''history'', JArray [JObject [(''v1Compatibility'', JString ''{"created":"B"}'')]])]),
      (''{"created":"A"}'', JObject [(''created'', JString ''A'')]),
      (''{"created":"B"}'', JObject [(''created'', JString ''B'')])]\<close>

text \<open>
  Time is counted in days: it is day 100, \<open>sha256:bbb\<close> was created on day 99 and
  \<open>sha256:aaa\<close> on the day \<open>created\<close>.
\<close>

definition demoEnv :: "int \<Rightarrow> unit env" where
  "demoEnv created =
     testEnv demoServer demoTable [(''A'', created), (''B'', 99)] 100 [''sha256:aaa'', ''sha256:bbb'']"

definition headReq :: "string \<Rightarrow> request" where
  "headReq path = registryReq (NewAPI ''http://localhost:5000'') ''HEAD'' path
     ''application/vnd.docker.distribution.manifest.v2+json''"

text \<open>
  The configuration of the example of the specification, with the repository filter
  narrowed to \<^verbatim>\<open>^app$\<close>: the repository \<open>app\<close>, the tags that match \<^verbatim>\<open>v.*\<close> (those that
  hold a \<open>v\<close>), a minimum age of 30 days.
\<close>

definition demoConfig :: "bool \<Rightarrow> config" where
  "demoConfig dry =
     \<lparr>Host = ''http://localhost:5000'', User = [], Pass = [],
      Repos = (\<lambda>r. r = ''app''), Tags = (\<lambda>t. CHR ''v'' \<in> set t), MinAge = 30, Dry = dry\<rparr>"


section \<open>Properties\<close>

subsection \<open>The challenge parser\<close>



















subsection \<open>Evaluating the instances\<close>

lemmas eval_defs = request_def registryRequest_def clientDo_def checkStatus_def
  manifestContentType_def manifestV1_def manifestV2_def headerGet_def reply_def
  testEnv_def testState_def NewAPI_def registryReq_def wwwAuthenticateHeader_def
  members_def stringsField_def stringField_def

subsection \<open>The token request URL\<close>

lemma tokenURL_short:
  "length (headerGet resp wwwAuthenticateHeader) < 7 \<Longrightarrow> tokenRequestURLFromResponse E resp = Panic SliceBounds"
  by (simp add: tokenRequestURLFromResponse_def sliceExpr_def)

lemma tokenURL_long:
  assumes "7 \<le> length (headerGet resp wwwAuthenticateHeader)"
  shows "tokenRequestURLFromResponse E resp =
     (let header = headerGet resp wwwAuthenticateHeader; instructions = extractKeyValuePairs header in
      if take 7 header \<noteq> ''Bearer '' then Err UnsupportedScheme
      else case (instructions ''realm'', instructions ''service'', instructions ''scope'') of
          (None, _, _) \<Rightarrow> Err NoRealm
        | (Some realm, None, _) \<Rightarrow> Err NoService
        | (Some realm, Some service, None) \<Rightarrow> Err NoScope
        | (Some realm, Some service, Some scope) \<Rightarrow>
            Ok (realm @ ''?'' @ ''scope='' @ queryEscape E scope @ ''&service='' @ queryEscape E service))"
  using assms by (simp add: tokenRequestURLFromResponse_def sliceExpr_def Let_def split: option.splits)

text \<open>
  C5, at the failing input. The registry answers \<open>401\<close> with the challenge \<open>NTLM\<close>, a scheme
  that is not \<open>Bearer\<close>. The claim promises an error. The four bytes are fewer than the
  seven that \<open>header[:7]\<close> takes, so \<open>tokenRequestURLFromResponse\<close> panics, and with it the
  \<open>request\<close> that received the challenge. (\<open>tokenURL_long\<close> shows that on every header of
  seven bytes or more the function does what the claim says.)
\<close>

theorem tokenURL_short_scheme_panics:
  "tokenRequestURLFromResponse E (reply 401 [(''Www-Authenticate'', ''NTLM'')] [])
     = Panic SliceBounds
   \<and> fst (request (testEnv (\<lambda>r. Inr (reply 401 [(''Www-Authenticate'', ''NTLM'')] [])) [] [] 0 [])
             ''GET'' ''/v2/_catalog'' manifestV2 testState)
     = Panic SliceBounds"
  by (simp add: tokenRequestURLFromResponse_def sliceExpr_def headerGet_def reply_def
      wwwAuthenticateHeader_def request_def registryRequest_def testEnv_def testState_def
      manifestContentType_def manifestV1_def manifestV2_def clientDo_def fetchBearerToken_def)

subsection \<open>The next page\<close>

lemma stringsIndex_ge: "- 1 \<le> stringsIndex s c"
  by (induction s) (auto simp: Let_def)

lemma stringsLastIndex_absent: "c \<notin> set s \<Longrightarrow> stringsLastIndex s c = - 1"
  by (induction s) (auto simp: Let_def)

text \<open>
  C10. When the \<open>Link\<close> header is not empty and holds no \<open>>\<close>, \<open>nextPagePath\<close> panics with
  slice bounds out of range: it neither returns the empty path nor an error. A page
  with such a header, received and decoded, makes the catalog loop end in that panic,
  whatever was accumulated before.
\<close>

theorem nextPagePath_no_gt_panics:
  assumes "headerGet resp ''Link'' \<noteq> []" and "CHR ''>'' \<notin> set (headerGet resp ''Link'')"
  shows "nextPagePath resp = Panic SliceBounds
    \<and> (path \<noteq> [] \<and> request E ''GET'' path manifestV2 s = (Ok resp, s1)
         \<and> decodeCatalog E (Body resp) = Ok names
       \<longrightarrow> catalogLoop E (Suc fuel) path repositories s = (Some (Panic SliceBounds), s1))"
proof -
  have "0 \<le> stringsIndex (headerGet resp ''Link'') CHR ''<'' + 1"
    using stringsIndex_ge [of "headerGet resp ''Link''" "CHR ''<''"] by simp
  then have p: "nextPagePath resp = Panic SliceBounds"
    using assms by (simp add: nextPagePath_def Let_def sliceExpr_def stringsLastIndex_absent)
  then show ?thesis by simp
qed

text \<open>The theorem at a page whose \<open>Link\<close> header is a bare path.\<close>

theorem nextPagePath_no_gt_panics_witness:
  \<open>headerGet (reply 200 [(''Link'', ''/v2/_catalog?last=b'')] ''{"repositories":["a","b"]}'') ''Link'' \<noteq> []
   \<and> CHR ''>'' \<notin> set (headerGet (reply 200 [(''Link'', ''/v2/_catalog?last=b'')] ''{"repositories":["a","b"]}'') ''Link'')
   \<and> nextPagePath (reply 200 [(''Link'', ''/v2/_catalog?last=b'')] ''{"repositories":["a","b"]}'')
       = Panic SliceBounds
   \<and> catalogLoop
        (testEnv (\<lambda>req. Inr (reply 200 [(''Link'', ''/v2/_catalog?last=b'')] ''{"repositories":["a","b"]}''))
           catalogTable [] 0 [])
        (Suc 0) ''/v2/_catalog'' [] testState
       = (Some (Panic SliceBounds), testState\<lparr>sent := [getReq ''/v2/_catalog'']\<rparr>)\<close>
proof -
  let ?r = \<open>reply 200 [(''Link'', ''/v2/_catalog?last=b'')] ''{"repositories":["a","b"]}''\<close>
  let ?E = "testEnv (\<lambda>req. Inr ?r) catalogTable [] 0 []"
  let ?s1 = "testState\<lparr>sent := [getReq ''/v2/_catalog'']\<rparr>"
  have a: "headerGet ?r ''Link'' \<noteq> []" by (simp add: eval_defs)
  have b: "CHR ''>'' \<notin> set (headerGet ?r ''Link'')" by (simp add: eval_defs)
  have q: "request ?E ''GET'' ''/v2/_catalog'' manifestV2 testState = (Ok ?r, ?s1)"
    by (simp add: eval_defs getReq_def)
  have d: "decodeCatalog ?E (Body ?r) = Ok [''a'', ''b'']"
    by (simp add: decodeCatalog_def eval_defs catalogTable_def)
  from nextPagePath_no_gt_panics [OF a b, of "''/v2/_catalog''" ?E testState ?s1 "[''a'', ''b'']" 0 "[]"]
    a b q d
  show ?thesis by simp
qed

subsection \<open>Listing the repositories\<close>

lemma stringsIndex_first: "c \<notin> set pre \<Longrightarrow> stringsIndex (pre @ c # rest) c = int (length pre)"
  by (induction pre) (auto simp: Let_def)

lemma stringsLastIndex_last: "c \<notin> set post \<Longrightarrow> stringsLastIndex (xs @ c # post) c = int (length xs)"
  by (induction xs) (auto simp: Let_def stringsLastIndex_absent)

lemma nextPagePath_absent: "headerGet resp ''Link'' = [] \<Longrightarrow> nextPagePath resp = Ok []"
  by (simp add: nextPagePath_def)

lemma nextPagePath_linksTo:
  assumes "linksTo (headerGet resp ''Link'') next"
  shows "nextPagePath resp = Ok next"
proof -
  from assms obtain pre post where l: "headerGet resp ''Link'' = pre @ CHR ''<'' # next @ CHR ''>'' # post"
    and a: "CHR ''<'' \<notin> set pre" and b: "CHR ''>'' \<notin> set post"
    unfolding linksTo_def by auto
  have i: "stringsIndex (pre @ CHR ''<'' # next @ CHR ''>'' # post) CHR ''<'' = int (length pre)"
    using a by (rule stringsIndex_first)
  have "stringsLastIndex ((pre @ CHR ''<'' # next) @ CHR ''>'' # post) CHR ''>''
          = int (length (pre @ CHR ''<'' # next))"
    using b by (rule stringsLastIndex_last)
  then have j: "stringsLastIndex (pre @ CHR ''<'' # next @ CHR ''>'' # post) CHR ''>''
          = int (length pre) + 1 + int (length next)"
    by simp
  have n: "nat (int (length pre) + 1) = Suc (length pre)" by simp
  show ?thesis
    unfolding nextPagePath_def Let_def l i j by (simp add: sliceExpr_def n)
qed

lemma catalogLoop_done: "catalogLoop E fuel [] repositories s = (Some (Ok repositories), s)"
  by (cases fuel) simp_all

lemma catalogLoop_pages:
  "catalogPages E s path pages s' \<Longrightarrow> length pages \<le> fuel
     \<Longrightarrow> catalogLoop E fuel path acc s = (Some (Ok (acc @ concat pages)), s')"
proof (induction arbitrary: fuel acc rule: catalogPages.induct)
  case (final path E s resp s' names)
  from final.prems obtain n where "fuel = Suc n" by (cases fuel) auto
  with final.hyps show ?case
    by (simp add: nextPagePath_absent catalogLoop_done)
next
  case (linked path E s resp s1 names "next" pages s')
  from linked.prems obtain n where n: "fuel = Suc n" and "length pages \<le> n" by (cases fuel) auto
  then have "catalogLoop E n next (acc @ names) s1 = (Some (Ok ((acc @ names) @ concat pages)), s')"
    using linked.IH by blast
  with linked.hyps n show ?case
    by (simp add: nextPagePath_linksTo)
qed

text \<open>
  C7. The path of the next page is the text between the first \<open><\<close> and the last \<open>>\<close> of
  the \<open>Link\<close> header; without the header the next path is empty, which ends the loop; and
  when the registry sends a sequence of pages, \<open>GetRepositories\<close> returns, given fuel for
  these pages, the concatenation of their name lists in the order received.
\<close>

theorem GetRepositories_pages:
  "(linksTo (headerGet resp ''Link'') next \<longrightarrow> nextPagePath resp = Ok next)
   \<and> (headerGet resp ''Link'' = [] \<longrightarrow> nextPagePath resp = Ok [])
   \<and> (catalogPages E s ''/v2/_catalog'' pages s' \<and> length pages \<le> fuel
        \<longrightarrow> GetRepositories E fuel s = (Some (Ok (concat pages)), s'))"
  using catalogLoop_pages [of E s "''/v2/_catalog''" pages s' fuel "[]"]
  by (simp add: nextPagePath_linksTo nextPagePath_absent GetRepositories_def)

text \<open>The theorem at a catalog of two pages.\<close>

theorem GetRepositories_pages_witness:
  "catalogPages catalogEnv testState ''/v2/_catalog'' [[''a'', ''b''], [''c'']]
     (testState\<lparr>sent := [getReq ''/v2/_catalog'', getReq ''/v2/_catalog?last=b&n=2'']\<rparr>)
   \<and> GetRepositories catalogEnv 2 testState
     = (Some (Ok [''a'', ''b'', ''c'']),
        testState\<lparr>sent := [getReq ''/v2/_catalog'', getReq ''/v2/_catalog?last=b&n=2'']\<rparr>)"
proof -
  let ?s1 = "testState\<lparr>sent := [getReq ''/v2/_catalog'']\<rparr>"
  let ?s2 = "testState\<lparr>sent := [getReq ''/v2/_catalog'', getReq ''/v2/_catalog?last=b&n=2'']\<rparr>"
  let ?r1 = \<open>reply 200 [(''Link'', ''</v2/_catalog?last=b&n=2>; rel="next"'')] ''{"repositories":["a","b"]}''\<close>
  let ?r2 = \<open>reply 200 [] ''{"repositories":["c"]}''\<close>
  have q1: "request catalogEnv ''GET'' ''/v2/_catalog'' manifestV2 testState = (Ok ?r1, ?s1)"
    by (simp add: eval_defs catalogEnv_def catalogServer_def getReq_def)
  have q2: "request catalogEnv ''GET'' ''/v2/_catalog?last=b&n=2'' manifestV2 ?s1 = (Ok ?r2, ?s2)"
    by (simp add: eval_defs catalogEnv_def catalogServer_def getReq_def)
  have d1: "decodeCatalog catalogEnv (Body ?r1) = Ok [''a'', ''b'']"
    by (simp add: decodeCatalog_def eval_defs catalogEnv_def catalogTable_def)
  have d2: "decodeCatalog catalogEnv (Body ?r2) = Ok [''c'']"
    by (simp add: decodeCatalog_def eval_defs catalogEnv_def catalogTable_def)
  have \<open>headerGet ?r1 ''Link'' = [] @ [CHR ''<''] @ ''/v2/_catalog?last=b&n=2'' @ [CHR ''>''] @ ''; rel="next"''\<close>
    by (simp add: eval_defs)
  then have l1: "linksTo (headerGet ?r1 ''Link'') ''/v2/_catalog?last=b&n=2''"
    unfolding linksTo_def by (intro exI conjI) (assumption, simp_all)
  have l2: "headerGet ?r2 ''Link'' = []" by (simp add: eval_defs)
  have p2: "catalogPages catalogEnv ?s1 ''/v2/_catalog?last=b&n=2'' [[''c'']] ?s2"
    by (rule catalogPages.final [OF _ q2 d2 _ l2]) (simp_all add: reply_def)
  have p1: "catalogPages catalogEnv testState ''/v2/_catalog'' [[''a'', ''b''], [''c'']] ?s2"
    by (rule catalogPages.linked [OF _ q1 d1 _ l1 _ p2]) (simp_all add: reply_def)
  from GetRepositories_pages [of ?r1 "''/v2/_catalog?last=b&n=2''" catalogEnv testState
      "[[''a'', ''b''], [''c'']]" ?s2 2] p1
  show ?thesis by simp
qed

subsection \<open>The creation time of a manifest\<close>

lemma registryRequest_Err:
  "registryRequest E method path version s = (Err e, s') \<Longrightarrow> transportError e"
  by (auto simp: registryRequest_def clientDo_def split: option.splits prod.splits sum.splits)

lemma request_Err:
  assumes "request E method path version s = (Err e, s')"
  shows "transportError e \<or> e = JSONError
    \<or> (\<exists>resp s1. registryRequest E method path version s = (Ok resp, s1) \<and> 300 \<le> StatusCode resp)"
proof (cases "registryRequest E method path version s")
  case (Pair r s1)
  show ?thesis
  proof (cases r)
    case (Ok resp)
    with Pair assms have "\<not> StatusCode resp < 300"
      by (auto simp: request_def)
    with Pair Ok show ?thesis by simp
  next
    case (Err e')
    with Pair assms have "e' = e" by (simp add: request_def)
    with Pair Err show ?thesis using registryRequest_Err by blast
  next
    case (Panic p)
    with Pair assms show ?thesis by (simp add: request_def)
  qed
qed

lemma lastSlice_Err: "lastSlice ok elem vs cur = Err e \<Longrightarrow> e = JSONError"
  by (induction vs arbitrary: cur) (auto split: option.splits)

lemma decodeManifest_Err: "decodeManifest E body = Err e \<Longrightarrow> e = JSONError"
  by (auto simp: decodeManifest_def split: option.splits json.splits dest: lastSlice_Err)

lemma lastTime_Err: "lastTime E vs cur = Err e \<Longrightarrow> e = JSONError"
  by (induction vs arbitrary: cur) (auto split: option.splits if_splits)

lemma decodeHistoryItem_Err: "decodeHistoryItem E v = Err e \<Longrightarrow> e = JSONError"
  by (auto simp: decodeHistoryItem_def split: option.splits json.splits dest: lastTime_Err)

lemma decodeManifest_empty:
  "decodeJSON E body = Some (JObject kvs) \<Longrightarrow> members E ''history'' kvs = [JArray []]
     \<Longrightarrow> decodeManifest E body = Ok []"
  by (simp add: decodeManifest_def)

lemma manifest_Err:
  assumes "GetManifestDigestAndCreated E repository tag s = (Err e, s')"
  shows "transportError e \<or> e = JSONError
    \<or> (\<exists>resp s1. registryRequest E ''GET'' (''/v2/'' @ repository @ ''/manifests/'' @ tag) manifestV1 s
           = (Ok resp, s1) \<and> 300 \<le> StatusCode resp)"
proof (cases "request E ''GET'' (''/v2/'' @ repository @ ''/manifests/'' @ tag) manifestV1 s")
  case (Pair r s1)
  show ?thesis
  proof (cases r)
    case (Ok resp)
    with Pair assms have "e = JSONError"
      by (auto simp: GetManifestDigestAndCreated_def
          split: result.splits list.splits dest: decodeManifest_Err decodeHistoryItem_Err)
    then show ?thesis by simp
  next
    case (Err e')
    with Pair assms have "request E ''GET'' (''/v2/'' @ repository @ ''/manifests/'' @ tag) manifestV1 s
        = (Err e, s1)"
      by (simp add: GetManifestDigestAndCreated_def)
    then show ?thesis by (rule request_Err)
  next
    case (Panic p)
    with Pair assms show ?thesis by (simp add: GetManifestDigestAndCreated_def)
  qed
qed

text \<open>
  C9. \<open>GetManifestDigestAndCreated\<close> reads \<open>manifest.History[0]\<close> without a test of the
  length. A v1 manifest that is well-formed JSON with an empty \<open>history\<close> list decodes
  to the empty list, and for every response that decodes to the empty list the call
  ends in the panic of an index out of range, not in an error. An error result is an
  error of the transport, a JSON decoding error, or follows a response of the registry
  with a status that is not a success.
\<close>

theorem manifest_empty_history_panics:
  "(decodeJSON E body = Some (JObject kvs) \<and> members E ''history'' kvs = [JArray []]
      \<longrightarrow> decodeManifest E body = Ok [])
   \<and> (request E ''GET'' (''/v2/'' @ repository @ ''/manifests/'' @ tag) manifestV1 s = (Ok resp, s1)
        \<and> decodeManifest E (Body resp) = Ok []
      \<longrightarrow> GetManifestDigestAndCreated E repository tag s = (Panic IndexOutOfRange, s1))
   \<and> (GetManifestDigestAndCreated E repository tag s = (Err e, s')
      \<longrightarrow> transportError e \<or> e = JSONError
          \<or> (\<exists>resp s1. registryRequest E ''GET'' (''/v2/'' @ repository @ ''/manifests/'' @ tag)
                 manifestV1 s = (Ok resp, s1) \<and> 300 \<le> StatusCode resp))"
  using manifest_Err [of E repository tag s e s']
  by (simp add: decodeManifest_empty GetManifestDigestAndCreated_def)

text \<open>
  The theorem at a registry that answers with the manifest \<^verbatim>\<open>{"history":[]}\<close>, and for
  the error results at a registry that answers \<open>404\<close>.
\<close>

theorem manifest_empty_history_panics_witness:
  \<open>decodeJSON (testEnv (\<lambda>req. Inr (reply 200 [(''Docker-Content-Digest'', ''sha256:aaa'')] ''{"history":[]}''))
        manifestTable [] 0 []) ''{"history":[]}''
      = Some (JObject [(''history'', JArray [])])
   \<and> GetManifestDigestAndCreated
        (testEnv (\<lambda>req. Inr (reply 200 [(''Docker-Content-Digest'', ''sha256:aaa'')] ''{"history":[]}''))
           manifestTable [] 0 [])
        ''app'' ''v1'' testState
      = (Panic IndexOutOfRange, testState\<lparr>sent := [getV1Req ''/v2/app/manifests/v1'']\<rparr>)
   \<and> GetManifestDigestAndCreated (testEnv (\<lambda>req. Inr (reply 404 [] [])) manifestTable [] 0 [])
        ''app'' ''v1'' testState
      = (Err (NonSuccessStatus 404 ''GET'' ''/v2/app/manifests/v1''),
         testState\<lparr>sent := [getV1Req ''/v2/app/manifests/v1'']\<rparr>)
   \<and> registryRequest (testEnv (\<lambda>req. Inr (reply 404 [] [])) manifestTable [] 0 [])
        ''GET'' ''/v2/app/manifests/v1'' manifestV1 testState
      = (Ok (reply 404 [] []), testState\<lparr>sent := [getV1Req ''/v2/app/manifests/v1'']\<rparr>)\<close>
proof -
  let ?r = \<open>reply 200 [(''Docker-Content-Digest'', ''sha256:aaa'')] ''{"history":[]}''\<close>
  let ?E = "testEnv (\<lambda>req. Inr ?r) manifestTable [] 0 []"
  let ?E' = "testEnv (\<lambda>req. Inr (reply 404 [] [])) manifestTable [] 0 []"
  let ?s1 = "testState\<lparr>sent := [getV1Req ''/v2/app/manifests/v1'']\<rparr>"
  have j: \<open>decodeJSON ?E ''{"history":[]}'' = Some (JObject [(''history'', JArray [])])\<close>
    by (simp add: testEnv_def manifestTable_def)
  have m: "members ?E ''history'' [(''history'', JArray [])] = [JArray []]"
    by (simp add: members_def)
  have q: "request ?E ''GET'' (''/v2/'' @ ''app'' @ ''/manifests/'' @ ''v1'') manifestV1 testState = (Ok ?r, ?s1)"
    by (simp add: eval_defs getV1Req_def)
  have b: \<open>Body ?r = ''{"history":[]}''\<close> by (simp add: reply_def)
  have g: "registryRequest ?E' ''GET'' ''/v2/app/manifests/v1'' manifestV1 testState
      = (Ok (reply 404 [] []), ?s1)"
    by (simp add: eval_defs getV1Req_def)
  have e: "GetManifestDigestAndCreated ?E' ''app'' ''v1'' testState
      = (Err (NonSuccessStatus 404 ''GET'' ''/v2/app/manifests/v1''), ?s1)"
    by (simp add: GetManifestDigestAndCreated_def eval_defs getV1Req_def)
  from manifest_empty_history_panics [of ?E \<open>''{"history":[]}''\<close> "[(''history'', JArray [])]"
      "''app''" "''v1''" testState ?r ?s1] j m q b
  have "GetManifestDigestAndCreated ?E ''app'' ''v1'' testState = (Panic IndexOutOfRange, ?s1)"
    by simp
  with j e g show ?thesis by simp
qed

subsection \<open>The token exchange\<close>

lemma tokenURL_Ok:
  assumes "tokenRequestURLFromResponse E deniedResponse = Ok u"
  shows "\<exists>realm service scope.
      extractKeyValuePairs (headerGet deniedResponse wwwAuthenticateHeader) ''realm'' = Some realm
    \<and> extractKeyValuePairs (headerGet deniedResponse wwwAuthenticateHeader) ''service'' = Some service
    \<and> extractKeyValuePairs (headerGet deniedResponse wwwAuthenticateHeader) ''scope'' = Some scope
    \<and> u = realm @ ''?'' @ ''scope='' @ queryEscape E scope @ ''&service='' @ queryEscape E service"
  using assms
  by (auto simp: tokenRequestURLFromResponse_def Let_def
      split: result.splits if_splits option.splits)

lemma fetchBearerToken_sent:
  assumes "tokenRequestURLFromResponse E deniedResponse = Ok u"
    and "newRequest E ''GET'' u = None"
    and "Do E (tokenReq (api s) u) (world s) = (Inr resp, w)"
  shows "fetchBearerToken E deniedResponse s =
     (if 300 \<le> StatusCode resp then Err (TokenServiceStatus (StatusCode resp))
      else decodeToken E (Body resp),
      s\<lparr>world := w, sent := sent s @ [tokenReq (api s) u]\<rparr>)"
  using assms by (simp add: fetchBearerToken_def clientDo_def)

text \<open>
  C4, as amended. The token request is a GET of the realm URL with the query parameters
  \<open>scope\<close> and \<open>service\<close>, with the basic credentials when a user is set. When the token
  service answers, the exchange fails with an error if the status is 300 or more, and
  otherwise returns what decoding the body gives: an error when the body is not JSON,
  the string of the field \<open>token\<close> when the object has one, and the empty token, with
  no error, when the object has no field \<open>token\<close>.
\<close>

theorem fetchBearerToken_result:
  "(tokenRequestURLFromResponse E deniedResponse = Ok u
      \<longrightarrow> (\<exists>realm service scope.
             extractKeyValuePairs (headerGet deniedResponse wwwAuthenticateHeader) ''realm'' = Some realm
           \<and> extractKeyValuePairs (headerGet deniedResponse wwwAuthenticateHeader) ''service'' = Some service
           \<and> extractKeyValuePairs (headerGet deniedResponse wwwAuthenticateHeader) ''scope'' = Some scope
           \<and> u = realm @ ''?'' @ ''scope='' @ queryEscape E scope
                   @ ''&service='' @ queryEscape E service))
   \<and> Method (tokenReq (api s) u) = ''GET'' \<and> URL (tokenReq (api s) u) = u
   \<and> Authorization (tokenReq (api s) u)
       = (if user (api s) \<noteq> [] then Some (Basic (user (api s)) (pass (api s))) else None)
   \<and> (tokenRequestURLFromResponse E deniedResponse = Ok u \<and> newRequest E ''GET'' u = None
        \<and> Do E (tokenReq (api s) u) (world s) = (Inr resp, w)
      \<longrightarrow> fetchBearerToken E deniedResponse s =
           (if 300 \<le> StatusCode resp then Err (TokenServiceStatus (StatusCode resp))
            else decodeToken E (Body resp),
            s\<lparr>world := w, sent := sent s @ [tokenReq (api s) u]\<rparr>))
   \<and> (decodeJSON E body = None \<longrightarrow> decodeToken E body = Err JSONError)
   \<and> (decodeJSON E body = Some (JObject kvs) \<and> members E ''token'' kvs = [JString t]
      \<longrightarrow> decodeToken E body = Ok t)
   \<and> (decodeJSON E body = Some (JObject kvs) \<and> members E ''token'' kvs = []
      \<longrightarrow> decodeToken E body = Ok [])"
  using tokenURL_Ok [of E deniedResponse u] fetchBearerToken_sent [of E deniedResponse u s resp w]
  by (simp add: tokenReq_def decodeToken_def stringField_def)

lemma denied_pairs:
  "findAllSubmatch (headerGet denied wwwAuthenticateHeader)
     = [(''realm'', ''https://auth.example/token''), (''service'', ''registry''),
        (''scope'', ''registry:catalog:*'')]"
  by (simp add: denied_def reply_def headerGet_def wwwAuthenticateHeader_def
      matchHere_def isWord_def dquote_def)

lemma denied_tokenURL: "tokenRequestURLFromResponse (testEnv serve table stamps now keys) denied = Ok tokenURL"
proof -
  have "length (headerGet denied wwwAuthenticateHeader) \<ge> 7"
    and "take 7 (headerGet denied wwwAuthenticateHeader) = ''Bearer ''"
    by (simp_all add: denied_def reply_def headerGet_def wwwAuthenticateHeader_def)
  then show ?thesis
    by (simp add: tokenRequestURLFromResponse_def sliceExpr_def Let_def extractKeyValuePairs_def
        denied_pairs tokenURL_def testEnv_def)
qed

theorem fetchBearerToken_result_witness:
  \<open>tokenRequestURLFromResponse (testEnv (\<lambda>req. Inr (reply 200 [] ''{"token":"abc"}'')) tokenTable [] 0 [])
      denied = Ok tokenURL
   \<and> fetchBearerToken (testEnv (\<lambda>req. Inr (reply 200 [] ''{"token":"abc"}'')) tokenTable [] 0 [])
        denied testState
      = (Ok ''abc'', testState\<lparr>sent := [tokenReq (api testState) tokenURL]\<rparr>)\<close>
proof -
  let ?r = \<open>reply 200 [] ''{"token":"abc"}''\<close>
  let ?E = "testEnv (\<lambda>req. Inr ?r) tokenTable [] 0 []"
  have u: "tokenRequestURLFromResponse ?E denied = Ok tokenURL" by (rule denied_tokenURL)
  have n: "newRequest ?E ''GET'' tokenURL = None" by (simp add: testEnv_def)
  have d: "Do ?E (tokenReq (api testState) tokenURL) (world testState) = (Inr ?r, ())"
    by (simp add: testEnv_def)
  have j: \<open>decodeJSON ?E (Body ?r) = Some (JObject [(''token'', JString ''abc'')])\<close>
    by (simp add: testEnv_def tokenTable_def reply_def)
  have m: "members ?E ''token'' [(''token'', JString ''abc'')] = [JString ''abc'']"
    by (simp add: members_def)
  from fetchBearerToken_result [of ?E denied tokenURL testState ?r "()" "Body ?r"
      "[(''token'', JString ''abc'')]" "''abc''"] u n d j m
  have "fetchBearerToken ?E denied testState
      = (Ok ''abc'', testState\<lparr>world := (), sent := sent testState @ [tokenReq (api testState) tokenURL]\<rparr>)"
    by (simp add: reply_def)
  with u show ?thesis by (simp add: testState_def)
qed

text \<open>
  C4 as stated fails: the token service answers \<open>200\<close> with a JSON object that has no
  field \<open>token\<close>, and the exchange returns the empty token with no error.
\<close>

theorem fetchBearerToken_counterexample:
  \<open>StatusCode (reply 200 [] ''{"access_token":"abc"}'') = 200
   \<and> decodeJSON (testEnv (\<lambda>req. Inr (reply 200 [] ''{"access_token":"abc"}'')) tokenTable [] 0 [])
        (Body (reply 200 [] ''{"access_token":"abc"}''))
      = Some (JObject [(''access_token'', JString ''abc'')])
   \<and> fetchBearerToken (testEnv (\<lambda>req. Inr (reply 200 [] ''{"access_token":"abc"}'')) tokenTable [] 0 [])
        denied testState
      = (Ok [], testState\<lparr>sent := [tokenReq (api testState) tokenURL]\<rparr>)\<close>
proof -
  let ?r = \<open>reply 200 [] ''{"access_token":"abc"}''\<close>
  let ?E = "testEnv (\<lambda>req. Inr ?r) tokenTable [] 0 []"
  have u: "tokenRequestURLFromResponse ?E denied = Ok tokenURL" by (rule denied_tokenURL)
  have j: \<open>decodeJSON ?E (Body ?r) = Some (JObject [(''access_token'', JString ''abc'')])\<close>
    by (simp add: testEnv_def tokenTable_def reply_def)
  have t: "decodeToken ?E (Body ?r) = Ok []"
    unfolding decodeToken_def j by (simp add: members_def stringField_def testEnv_def)
  have c: "clientDo ?E (tokenReq (api testState) tokenURL) testState
      = (Ok ?r, testState\<lparr>sent := [tokenReq (api testState) tokenURL]\<rparr>)"
    by (simp add: clientDo_def testEnv_def testState_def)
  have n: "newRequest ?E ''GET'' tokenURL = None" by (simp add: testEnv_def)
  have s: "StatusCode ?r = 200" by (simp add: reply_def)
  have "fetchBearerToken ?E denied testState
      = (Ok [], testState\<lparr>sent := [tokenReq (api testState) tokenURL]\<rparr>)"
    unfolding fetchBearerToken_def u by (simp add: n c s t)
  with j s show ?thesis by simp
qed

subsection \<open>One operation of the client: \<open>request\<close>\<close>

lemma registryRequest_sent:
  "\<exists>reqs. sent (snd (registryRequest E method path version s)) = sent s @ reqs
     \<and> length reqs \<le> 1 \<and> list_all isRegistryRequest reqs"
  by (auto simp: registryRequest_def clientDo_def registryReq_def isRegistryRequest_def
      split: option.splits prod.splits sum.splits)

lemma registryRequest_api: "api (snd (registryRequest E method path version s)) = api s"
  by (auto simp: registryRequest_def clientDo_def split: option.splits prod.splits sum.splits)

lemma fetchBearerToken_sent_any:
  "\<exists>reqs. sent (snd (fetchBearerToken E deniedResponse s)) = sent s @ reqs
     \<and> length reqs \<le> 1 \<and> list_all (\<lambda>r. \<not> isRegistryRequest r) reqs"
  by (auto simp: fetchBearerToken_def clientDo_def tokenReq_def isRegistryRequest_def
      split: option.splits prod.splits sum.splits result.splits)

lemma fetchBearerToken_api: "api (snd (fetchBearerToken E deniedResponse s)) = api s"
  by (auto simp: fetchBearerToken_def clientDo_def
      split: option.splits prod.splits sum.splits result.splits)

lemma request_sent:
  "\<exists>reqs. sent (snd (request E method path version s)) = sent s @ reqs
     \<and> length (filter isRegistryRequest reqs) \<le> 2
     \<and> length (filter (\<lambda>r. \<not> isRegistryRequest r) reqs) \<le> 1"
proof -
  define s1 where "s1 = snd (registryRequest E method path version s)"
  obtain r1 where r1: "sent s1 = sent s @ r1" "length r1 \<le> 1" "list_all isRegistryRequest r1"
    unfolding s1_def using registryRequest_sent [of E "method" path version s] by blast
  have one: "\<exists>reqs. sent s1 = sent s @ reqs
     \<and> length (filter isRegistryRequest reqs) \<le> 2
     \<and> length (filter (\<lambda>r. \<not> isRegistryRequest r) reqs) \<le> 1"
    using r1 by (intro exI [of _ r1]) (auto simp: list_all_iff)
  have two: "\<exists>reqs. sent s2 = sent s @ reqs
     \<and> length (filter isRegistryRequest reqs) \<le> 2
     \<and> length (filter (\<lambda>r. \<not> isRegistryRequest r) reqs) \<le> 1"
    if fb: "s2 = snd (fetchBearerToken E resp s1)" for s2 resp
  proof -
    obtain t where t: "sent s2 = sent s1 @ t" "length t \<le> 1" "list_all (\<lambda>r. \<not> isRegistryRequest r) t"
      using fetchBearerToken_sent_any [of E resp s1] fb by auto
    show ?thesis
      using r1 t by (intro exI [of _ "r1 @ t"]) (auto simp: list_all_iff)
  qed
  have three: "\<exists>reqs. sent s3 = sent s @ reqs
     \<and> length (filter isRegistryRequest reqs) \<le> 2
     \<and> length (filter (\<lambda>r. \<not> isRegistryRequest r) reqs) \<le> 1"
    if fb: "s2 = snd (fetchBearerToken E resp s1)"
      and rr: "s3 = snd (registryRequest E method path version (s2\<lparr>api := a\<rparr>))" for s2 s3 resp a
  proof -
    obtain t where t: "sent s2 = sent s1 @ t" "length t \<le> 1" "list_all (\<lambda>r. \<not> isRegistryRequest r) t"
      using fetchBearerToken_sent_any [of E resp s1] fb by auto
    obtain r2 where r2: "sent s3 = sent (s2\<lparr>api := a\<rparr>) @ r2" "length r2 \<le> 1"
      "list_all isRegistryRequest r2"
      using registryRequest_sent [of E "method" path version "s2\<lparr>api := a\<rparr>"] rr by auto
    have f1: "filter isRegistryRequest t = []" "filter (\<lambda>r. \<not> isRegistryRequest r) r1 = []"
      "filter (\<lambda>r. \<not> isRegistryRequest r) r2 = []"
      using t r1 r2 by (auto simp: list_all_iff filter_empty_conv)
    have f2: "length (filter isRegistryRequest r1) \<le> 1" "length (filter isRegistryRequest r2) \<le> 1"
      "length (filter (\<lambda>r. \<not> isRegistryRequest r) t) \<le> 1"
      using r1 r2 t by (auto intro: order_trans [OF length_filter_le])
    show ?thesis
      using r1 t r2 f1 f2 by (intro exI [of _ "r1 @ t @ r2"]) simp
  qed
  show ?thesis
  proof (cases "registryRequest E method path version s")
    case (Pair r s1')
    then have s1': "s1' = s1" by (simp add: s1_def)
    show ?thesis
    proof (cases r)
      case (Ok resp)
      show ?thesis
      proof (cases "fetchBearerToken E resp s1")
        case fb: (Pair t s2)
        then have s2: "s2 = snd (fetchBearerToken E resp s1)" by simp
        show ?thesis
        proof (cases t)
          case tok: (Ok token)
          obtain r' s3 where rr: "registryRequest E method path version
              (s2\<lparr>api := (api s2)\<lparr>bearerToken := token\<rparr>\<rparr>) = (r', s3)"
            by (cases "registryRequest E method path version
              (s2\<lparr>api := (api s2)\<lparr>bearerToken := token\<rparr>\<rparr>)")
          then have s3: "s3 = snd (registryRequest E method path version
              (s2\<lparr>api := (api s2)\<lparr>bearerToken := token\<rparr>\<rparr>))" by simp
          have "snd (request E method path version s) = s1
              \<or> snd (request E method path version s) = s3"
            using Pair Ok fb tok rr s1' by (auto simp: request_def split: result.splits)
          then show ?thesis using one three [OF s2 s3] by auto
        next
          case (Err e)
          have "snd (request E method path version s) = s1
              \<or> snd (request E method path version s) = s2"
            using Pair Ok fb Err s1' by (auto simp: request_def)
          then show ?thesis using one two [OF s2] by auto
        next
          case (Panic p)
          have "snd (request E method path version s) = s1
              \<or> snd (request E method path version s) = s2"
            using Pair Ok fb Panic s1' by (auto simp: request_def)
          then show ?thesis using one two [OF s2] by auto
        qed
      qed
    next
      case (Err e)
      with Pair s1' have "snd (request E method path version s) = s1" by (simp add: request_def)
      then show ?thesis using one by simp
    next
      case (Panic p)
      with Pair s1' have "snd (request E method path version s) = s1" by (simp add: request_def)
      then show ?thesis using one by simp
    qed
  qed
qed

lemma request_retry:
  assumes first: "registryRequest E method path version s = (Ok resp, s1)"
    and denied: "StatusCode resp = 401" "headerGet resp wwwAuthenticateHeader \<noteq> []"
    and token: "fetchBearerToken E resp s1 = (Ok token, s2)"
    and ct: "manifestContentType version = Some ct"
    and again: "Do E (registryReq ((api s)\<lparr>bearerToken := token\<rparr>) method path ct) (world s2)
                  = (Inr resp', w)"
  shows "request E method path version s
           = (checkStatus method path resp',
              s2\<lparr>api := (api s)\<lparr>bearerToken := token\<rparr>, world := w,
                 sent := sent s2 @ [registryReq ((api s)\<lparr>bearerToken := token\<rparr>) method path ct]\<rparr>)"
proof -
  have a1: "api s1 = api s" using registryRequest_api [of E "method" path version s] first by simp
  have a2: "api s2 = api s" using fetchBearerToken_api [of E resp s1] token a1 by simp
  have n: "newRequest E method (host (api s) @ path) = None"
    using first by (auto simp: registryRequest_def split: option.splits)
  have "registryRequest E method path version (s2\<lparr>api := (api s2)\<lparr>bearerToken := token\<rparr>\<rparr>)
      = (Ok resp', s2\<lparr>api := (api s)\<lparr>bearerToken := token\<rparr>, world := w,
                 sent := sent s2 @ [registryReq ((api s)\<lparr>bearerToken := token\<rparr>) method path ct]\<rparr>)"
    using n ct again by (simp add: registryRequest_def clientDo_def a2)
  then show ?thesis
    using first denied token by (simp add: request_def)
qed

lemma request_no_token:
  assumes "registryRequest E method path version s = (Ok resp, s1)"
    and "StatusCode resp = 401" "headerGet resp wwwAuthenticateHeader \<noteq> []"
    and "fetchBearerToken E resp s1 = (Err e, s2)"
  shows "request E method path version s = (Err e, s2)"
  using assms by (simp add: request_def)

text \<open>
  C3, as amended. One call of \<open>request\<close> hands at most two registry requests and at most
  one token request to the client. When the first answer is a 401 challenge and the
  token exchange fails, its error is the result and nothing is sent again. When the
  exchange returns a token, the token is stored and the original request is sent once
  more, built from the new state: with the header \<open>Authorization: Bearer\<close> of this token
  when the token is not empty. A status of 300 or more on this second answer is returned
  as the error of the operation.
\<close>

theorem request_retries_once:
  "(\<exists>reqs. sent (snd (request E method path version s)) = sent s @ reqs
       \<and> length (filter isRegistryRequest reqs) \<le> 2
       \<and> length (filter (\<lambda>r. \<not> isRegistryRequest r) reqs) \<le> 1)
   \<and> (registryRequest E method path version s = (Ok resp, s1) \<and> StatusCode resp = 401
        \<and> headerGet resp wwwAuthenticateHeader \<noteq> []
        \<and> fetchBearerToken E resp s1 = (Err e, s2)
      \<longrightarrow> request E method path version s = (Err e, s2))
   \<and> (registryRequest E method path version s = (Ok resp, s1) \<and> StatusCode resp = 401
        \<and> headerGet resp wwwAuthenticateHeader \<noteq> []
        \<and> fetchBearerToken E resp s1 = (Ok token, s2)
        \<and> manifestContentType version = Some ct
        \<and> Do E (registryReq ((api s)\<lparr>bearerToken := token\<rparr>) method path ct) (world s2)
            = (Inr resp', w)
      \<longrightarrow> request E method path version s
            = (checkStatus method path resp',
               s2\<lparr>api := (api s)\<lparr>bearerToken := token\<rparr>, world := w,
                  sent := sent s2 @ [registryReq ((api s)\<lparr>bearerToken := token\<rparr>) method path ct]\<rparr>)
          \<and> (token \<noteq> []
              \<longrightarrow> Authorization (registryReq ((api s)\<lparr>bearerToken := token\<rparr>) method path ct)
                    = Some (Bearer token))
          \<and> (300 \<le> StatusCode resp'
              \<longrightarrow> checkStatus method path resp'
                    = Err (NonSuccessStatus (StatusCode resp') method path)))"
  using request_sent [of E "method" path version s]
    request_no_token [of E "method" path version s resp s1 e s2]
    request_retry [of E "method" path version s resp s1 token s2 ct resp' w]
  by (simp add: registryReq_def checkStatus_def)

lemma tokenURL_differs: "''http://localhost:5000/v2/_catalog'' \<noteq> tokenURL"
  by (simp add: tokenURL_def)

lemma authEnv_first:
  "registryRequest (authEnv b) ''GET'' ''/v2/_catalog'' manifestV2 testState
     = (Ok denied, testState\<lparr>sent := [getReq ''/v2/_catalog'']\<rparr>)"
  by (simp add: registryRequest_def clientDo_def authEnv_def authServer_def testEnv_def
      testState_def NewAPI_def registryReq_def getReq_def manifestContentType_def
      manifestV1_def manifestV2_def tokenURL_differs)

lemma authEnv_token:
  \<open>fetchBearerToken (authEnv b) denied (testState\<lparr>sent := [getReq ''/v2/_catalog'']\<rparr>)
     = (decodeToken (authEnv b) b,
        testState\<lparr>sent := [getReq ''/v2/_catalog'', tokenReq (api testState) tokenURL]\<rparr>)\<close>
proof -
  let ?s1 = "testState\<lparr>sent := [getReq ''/v2/_catalog'']\<rparr>"
  have u: "tokenRequestURLFromResponse (authEnv b) denied = Ok tokenURL"
    unfolding authEnv_def by (rule denied_tokenURL)
  have n: "newRequest (authEnv b) ''GET'' tokenURL = None" by (simp add: authEnv_def testEnv_def)
  have d: "Do (authEnv b) (tokenReq (api ?s1) tokenURL) (world ?s1) = (Inr (reply 200 [] b), ())"
    by (simp add: authEnv_def testEnv_def authServer_def tokenReq_def)
  show ?thesis
    unfolding fetchBearerToken_sent [OF u n d] by (simp add: reply_def testState_def)
qed

text \<open>
  The theorem at this registry, when the token service sends \<^verbatim>\<open>{"token":"abc"}\<close>, and
  when it sends a body that is not JSON.
\<close>

theorem request_retries_once_witness:
  \<open>registryRequest (authEnv ''{"token":"abc"}'') ''GET'' ''/v2/_catalog'' manifestV2 testState
     = (Ok denied, testState\<lparr>sent := [getReq ''/v2/_catalog'']\<rparr>)
   \<and> fetchBearerToken (authEnv ''{"token":"abc"}'') denied (testState\<lparr>sent := [getReq ''/v2/_catalog'']\<rparr>)
     = (Ok ''abc'', testState\<lparr>sent := [getReq ''/v2/_catalog'', tokenReq (api testState) tokenURL]\<rparr>)
   \<and> request (authEnv ''{"token":"abc"}'') ''GET'' ''/v2/_catalog'' manifestV2 testState
     = (Ok (reply 200 [] ''{"repositories":["a","b"]}''),
        testState\<lparr>api := (api testState)\<lparr>bearerToken := ''abc''\<rparr>,
          sent := [getReq ''/v2/_catalog'', tokenReq (api testState) tokenURL,
                   (getReq ''/v2/_catalog'')\<lparr>Authorization := Some (Bearer ''abc'')\<rparr>]\<rparr>)
   \<and> fetchBearerToken (authEnv ''no token'') denied (testState\<lparr>sent := [getReq ''/v2/_catalog'']\<rparr>)
     = (Err JSONError,
        testState\<lparr>sent := [getReq ''/v2/_catalog'', tokenReq (api testState) tokenURL]\<rparr>)
   \<and> request (authEnv ''no token'') ''GET'' ''/v2/_catalog'' manifestV2 testState
     = (Err JSONError,
        testState\<lparr>sent := [getReq ''/v2/_catalog'', tokenReq (api testState) tokenURL]\<rparr>)\<close>
proof -
  let ?E = \<open>authEnv ''{"token":"abc"}''\<close>
  let ?s1 = "testState\<lparr>sent := [getReq ''/v2/_catalog'']\<rparr>"
  let ?s2 = "testState\<lparr>sent := [getReq ''/v2/_catalog'', tokenReq (api testState) tokenURL]\<rparr>"
  let ?ct = "''application/vnd.docker.distribution.manifest.v2+json''"
  let ?page = \<open>reply 200 [] ''{"repositories":["a","b"]}''\<close>
  have first: "registryRequest ?E ''GET'' ''/v2/_catalog'' manifestV2 testState = (Ok denied, ?s1)"
    by (rule authEnv_first)
  have st: "StatusCode denied = 401" by (simp add: denied_def reply_def)
  have hd: "headerGet denied wwwAuthenticateHeader \<noteq> []"
    by (simp add: denied_def reply_def headerGet_def wwwAuthenticateHeader_def)
  have \<open>decodeToken ?E ''{"token":"abc"}'' = Ok ''abc''\<close>
    by (simp add: decodeToken_def authEnv_def testEnv_def tokenTable_def members_def stringField_def)
  then have token: "fetchBearerToken ?E denied ?s1 = (Ok ''abc'', ?s2)"
    by (simp add: authEnv_token)
  have ct: "manifestContentType manifestV2 = Some ?ct"
    by (simp add: manifestContentType_def manifestV1_def manifestV2_def)
  have again: "Do ?E (registryReq ((api testState)\<lparr>bearerToken := ''abc''\<rparr>) ''GET'' ''/v2/_catalog'' ?ct)
      (world ?s2) = (Inr ?page, ())"
    by (simp add: authEnv_def testEnv_def authServer_def registryReq_def testState_def NewAPI_def
        tokenURL_differs)
  have ok: "checkStatus ''GET'' ''/v2/_catalog'' ?page = Ok ?page"
    by (simp add: checkStatus_def reply_def)
  from request_retries_once [of ?E "''GET''" "''/v2/_catalog''" manifestV2 testState denied ?s1
      _ ?s2 "''abc''" ?ct ?page "()"] first st hd token ct again
  have "request ?E ''GET'' ''/v2/_catalog'' manifestV2 testState
      = (checkStatus ''GET'' ''/v2/_catalog'' ?page,
         ?s2\<lparr>api := (api testState)\<lparr>bearerToken := ''abc''\<rparr>, world := (),
           sent := sent ?s2 @ [registryReq ((api testState)\<lparr>bearerToken := ''abc''\<rparr>)
                                 ''GET'' ''/v2/_catalog'' ?ct]\<rparr>)"
    by simp
  then have "request ?E ''GET'' ''/v2/_catalog'' manifestV2 testState
      = (Ok ?page,
        testState\<lparr>api := (api testState)\<lparr>bearerToken := ''abc''\<rparr>,
          sent := [getReq ''/v2/_catalog'', tokenReq (api testState) tokenURL,
                   (getReq ''/v2/_catalog'')\<lparr>Authorization := Some (Bearer ''abc'')\<rparr>]\<rparr>)"
    unfolding ok by (simp add: testState_def getReq_def registryReq_def NewAPI_def)
  note retried = this
  have "decodeToken (authEnv ''no token'') ''no token'' = Err JSONError"
    by (simp add: decodeToken_def authEnv_def testEnv_def tokenTable_def)
  then have bad: "fetchBearerToken (authEnv ''no token'') denied ?s1 = (Err JSONError, ?s2)"
    by (simp add: authEnv_token)
  from request_retries_once [of "authEnv ''no token''" "''GET''" "''/v2/_catalog''" manifestV2
      testState denied ?s1 JSONError ?s2] authEnv_first [of "''no token''"] st hd bad
  have "request (authEnv ''no token'') ''GET'' ''/v2/_catalog'' manifestV2 testState
      = (Err JSONError, ?s2)"
    by simp
  with first token retried bad show ?thesis by simp
qed

text \<open>
  C3 as stated fails: the token service answers \<open>200\<close> with \<^verbatim>\<open>{"access_token":"abc"}\<close>, the
  exchange succeeds with the empty token, and the request that is sent again is the
  first request once more, with no \<open>Authorization\<close> header; the registry denies it again.
\<close>

theorem request_retry_counterexample:
  \<open>fetchBearerToken (authEnv ''{"access_token":"abc"}'') denied
       (testState\<lparr>sent := [getReq ''/v2/_catalog'']\<rparr>)
     = (Ok [], testState\<lparr>sent := [getReq ''/v2/_catalog'', tokenReq (api testState) tokenURL]\<rparr>)
   \<and> request (authEnv ''{"access_token":"abc"}'') ''GET'' ''/v2/_catalog'' manifestV2 testState
     = (Err (NonSuccessStatus 401 ''GET'' ''/v2/_catalog''),
        testState\<lparr>sent := [getReq ''/v2/_catalog'', tokenReq (api testState) tokenURL,
                            getReq ''/v2/_catalog'']\<rparr>)
   \<and> Authorization (getReq ''/v2/_catalog'') = None\<close>
proof -
  let ?E = \<open>authEnv ''{"access_token":"abc"}''\<close>
  let ?s1 = "testState\<lparr>sent := [getReq ''/v2/_catalog'']\<rparr>"
  let ?s2 = "testState\<lparr>sent := [getReq ''/v2/_catalog'', tokenReq (api testState) tokenURL]\<rparr>"
  let ?s3 = "testState\<lparr>sent := [getReq ''/v2/_catalog'', tokenReq (api testState) tokenURL,
                            getReq ''/v2/_catalog'']\<rparr>"
  let ?ct = "''application/vnd.docker.distribution.manifest.v2+json''"
  have first: "registryRequest ?E ''GET'' ''/v2/_catalog'' manifestV2 testState = (Ok denied, ?s1)"
    by (rule authEnv_first)
  have st: "StatusCode denied = 401" by (simp add: denied_def reply_def)
  have hd: "headerGet denied wwwAuthenticateHeader \<noteq> []"
    by (simp add: denied_def reply_def headerGet_def wwwAuthenticateHeader_def)
  have \<open>decodeToken ?E ''{"access_token":"abc"}'' = Ok []\<close>
    by (simp add: decodeToken_def authEnv_def testEnv_def tokenTable_def members_def stringField_def)
  then have token: "fetchBearerToken ?E denied ?s1 = (Ok [], ?s2)"
    by (simp add: authEnv_token)
  have ct: "manifestContentType manifestV2 = Some ?ct"
    by (simp add: manifestContentType_def manifestV1_def manifestV2_def)
  have again: "Do ?E (registryReq ((api testState)\<lparr>bearerToken := []\<rparr>) ''GET'' ''/v2/_catalog'' ?ct)
      (world ?s2) = (Inr denied, ())"
    by (simp add: authEnv_def testEnv_def authServer_def registryReq_def testState_def NewAPI_def
        tokenURL_differs)
  have no: "checkStatus ''GET'' ''/v2/_catalog'' denied = Err (NonSuccessStatus 401 ''GET'' ''/v2/_catalog'')"
    by (simp add: checkStatus_def denied_def reply_def)
  have "request ?E ''GET'' ''/v2/_catalog'' manifestV2 testState
      = (Err (NonSuccessStatus 401 ''GET'' ''/v2/_catalog''), ?s3)"
    unfolding request_retry [OF first st hd token ct again] no
    by (simp add: testState_def getReq_def registryReq_def NewAPI_def)
  moreover have "Authorization (getReq ''/v2/_catalog'') = None"
    by (simp add: getReq_def registryReq_def NewAPI_def)
  ultimately show ?thesis using token by simp
qed

subsection \<open>Grouping the tags by digest\<close>

lemma resolveTags_length:
  "resolveTags E repository tags s = (Ok digests, s') \<Longrightarrow> length digests = length tags"
  by (induction tags arbitrary: s digests)
    (auto split: prod.splits result.splits)

lemma groupTags_resolveTags:
  "resolveTags E repository tags s = (Ok digests, s')
     \<Longrightarrow> groupTags E repository tags m s = (Ok (appendTags m (zip digests tags)), s')"
proof (induction tags arbitrary: s digests m)
  case Nil
  then show ?case by simp
next
  case (Cons tag tags)
  from Cons.prems obtain digest s1 ds where d: "GetDigest E repository tag s = (Ok digest, s1)"
    and r: "resolveTags E repository tags s1 = (Ok ds, s')" and ds: "digests = digest # ds"
    by (auto split: prod.splits result.splits)
  from Cons.IH [OF r] d ds show ?case by simp
qed

lemma appendTag_apply:
  "appendTag m d t d' = (if d' = d then Some (tagList m d @ [t]) else m d')"
  by (simp add: appendTag_def tagList_def Let_def)

lemma appendTags_apply:
  "appendTags m pairs d =
     (if d \<in> fst ` set pairs then Some (tagList m d @ tagsOf d pairs) else m d)"
proof (induction pairs arbitrary: m)
  case Nil
  then show ?case by simp
next
  case (Cons p pairs)
  obtain d' t where p: "p = (d', t)" by (cases p)
  show ?case
    unfolding p appendTags.simps Cons.IH
    by (auto simp: appendTag_apply tagList_def tagsOf_def filter_empty_conv image_iff)
qed

lemma tagsOf_split:
  "k \<notin> set ks \<Longrightarrow>
     mset (tagsOf k pairs) + mset (map snd (filter (\<lambda>p. fst p \<in> set ks) pairs))
       = mset (map snd (filter (\<lambda>p. fst p = k \<or> fst p \<in> set ks) pairs))"
  by (induction pairs) (auto simp: tagsOf_def)

lemma tagsOf_concat:
  "distinct ks \<Longrightarrow>
     mset (concat (map (\<lambda>k. tagsOf k pairs) ks))
       = mset (map snd (filter (\<lambda>p. fst p \<in> set ks) pairs))"
proof (induction ks)
  case Nil
  then show ?case by simp
next
  case (Cons k ks)
  then have "mset (concat (map (\<lambda>k. tagsOf k pairs) (k # ks)))
      = mset (tagsOf k pairs) + mset (map snd (filter (\<lambda>p. fst p \<in> set ks) pairs))"
    by simp
  also have "\<dots> = mset (map snd (filter (\<lambda>p. fst p = k \<or> fst p \<in> set ks) pairs))"
    using Cons.prems tagsOf_split [of k ks pairs] by simp
  also have "\<dots> = mset (map snd (filter (\<lambda>p. fst p \<in> set (k # ks)) pairs))"
    by simp
  finally show ?case .
qed

lemma grouped_tags:
  assumes len: "length digests = length tags"
    and m: "m = appendTags Map.empty (zip digests tags)"
  shows "m d = (if d \<in> set digests then Some (tagsOf d (zip digests tags)) else None)"
    and "distinct ks \<Longrightarrow> set ks = dom m
      \<Longrightarrow> mset (concat (map (tagList m) ks)) = mset tags"
proof -
  have f: "fst ` set (zip digests tags) = set digests"
    using len by (metis map_fst_zip set_map)
  show a: "m d = (if d \<in> set digests then Some (tagsOf d (zip digests tags)) else None)" for d
    unfolding m appendTags_apply f by (simp add: tagList_def)
  assume ks: "distinct ks" "set ks = dom m"
  have d: "dom m = set digests"
    using a by (auto simp: dom_def split: if_splits)
  have e: "map (tagList m) ks = map (\<lambda>k. tagsOf k (zip digests tags)) ks"
    using ks d a by (auto simp: tagList_def)
  have k: "filter (\<lambda>p. fst p \<in> set ks) (zip digests tags) = zip digests tags"
    using ks d f by (auto simp: filter_id_conv)
  have "mset (concat (map (tagList m) ks))
      = mset (map snd (filter (\<lambda>p. fst p \<in> set ks) (zip digests tags)))"
    unfolding e using ks(1) by (rule tagsOf_concat)
  also have "\<dots> = mset (map snd (zip digests tags))"
    unfolding k ..
  also have "\<dots> = mset tags"
    using len by simp
  finally show "mset (concat (map (tagList m) ks)) = mset tags" .
qed

text \<open>
  C8. When the tag list is read and every tag resolves to a digest, in the order of the
  list, \<open>GetTagsIndexedByDigest\<close> returns a map that binds exactly the digests that were
  seen, each to the list of exactly the tags that resolved to it; and the lists of all
  keys, concatenated in any order of the keys, are a permutation of the tag list:
  nothing is lost and nothing is added.
\<close>

theorem GetTagsIndexedByDigest_groups:
  "GetTags E repository s = (Ok tags, s1) \<and> resolveTags E repository tags s1 = (Ok digests, s2)
     \<longrightarrow> (\<exists>m. GetTagsIndexedByDigest E repository s = (Ok m, s2)
           \<and> (\<forall>d. m d = (if d \<in> set digests then Some (tagsOf d (zip digests tags)) else None))
           \<and> (\<forall>ks. distinct ks \<and> set ks = dom m
                 \<longrightarrow> mset (concat (map (tagList m) ks)) = mset tags))"
proof (intro impI, elim conjE)
  assume t: "GetTags E repository s = (Ok tags, s1)"
    and r: "resolveTags E repository tags s1 = (Ok digests, s2)"
  let ?m = "appendTags Map.empty (zip digests tags)"
  have g: "GetTagsIndexedByDigest E repository s = (Ok ?m, s2)"
    using t groupTags_resolveTags [OF r] by (simp add: GetTagsIndexedByDigest_def)
  have len: "length digests = length tags" using r by (rule resolveTags_length)
  show "\<exists>m. GetTagsIndexedByDigest E repository s = (Ok m, s2)
           \<and> (\<forall>d. m d = (if d \<in> set digests then Some (tagsOf d (zip digests tags)) else None))
           \<and> (\<forall>ks. distinct ks \<and> set ks = dom m
                 \<longrightarrow> mset (concat (map (tagList m) ks)) = mset tags)"
    using g grouped_tags [OF len refl] by (intro exI [of _ ?m]) blast
qed

lemma demo_request:
  assumes "api s = NewAPI ''http://localhost:5000''"
    and "manifestContentType version = Some ct"
    and "demoServer (registryReq (NewAPI ''http://localhost:5000'') meth path ct) = Inr resp"
    and "StatusCode resp < 300"
  shows "request (demoEnv c) meth path version s
    = (Ok resp, s\<lparr>sent := sent s @ [registryReq (NewAPI ''http://localhost:5000'') meth path ct]\<rparr>)"
  using assms by (simp add: request_def registryRequest_def clientDo_def demoEnv_def testEnv_def)

lemma demo_ct2:
  "manifestContentType manifestV2 = Some ''application/vnd.docker.distribution.manifest.v2+json''"
  by (simp add: manifestContentType_def manifestV1_def manifestV2_def)

lemma demo_ct1:
  "manifestContentType manifestV1 = Some ''application/vnd.docker.distribution.manifest.v1+prettyjws''"
  by (simp add: manifestContentType_def manifestV1_def manifestV2_def)

lemma demo_GetTags:
  assumes "api s = NewAPI ''http://localhost:5000''"
  shows "GetTags (demoEnv c) ''app'' s
    = (Ok [''v1'', ''v2'', ''latest''], s\<lparr>sent := sent s @ [getReq ''/v2/app/tags/list'']\<rparr>)"
proof -
  have \<open>demoServer (registryReq (NewAPI ''http://localhost:5000'') ''GET'' ''/v2/app/tags/list''
      ''application/vnd.docker.distribution.manifest.v2+json'')
      = Inr (reply 200 [] ''{"tags":["v1","v2","latest"]}'')\<close>
    by (simp add: demoServer_def registryReq_def NewAPI_def)
  from demo_request [OF assms demo_ct2 this]
  have q: \<open>request (demoEnv c) ''GET'' ''/v2/app/tags/list'' manifestV2 s
      = (Ok (reply 200 [] ''{"tags":["v1","v2","latest"]}''),
         s\<lparr>sent := sent s @ [getReq ''/v2/app/tags/list'']\<rparr>)\<close>
    by (simp add: reply_def getReq_def)
  have d: \<open>decodeTags (demoEnv c) ''{"tags":["v1","v2","latest"]}'' = Ok [''v1'', ''v2'', ''latest'']\<close>
    by (simp add: decodeTags_def demoEnv_def testEnv_def demoTable_def members_def stringsField_def)
  have b: \<open>Body (reply 200 [] ''{"tags":["v1","v2","latest"]}'') = ''{"tags":["v1","v2","latest"]}''\<close>
    by (simp add: reply_def)
  have p: "''/v2/'' @ ''app'' @ ''/tags/list'' = ''/v2/app/tags/list''" by simp
  show ?thesis
    unfolding GetTags_def p q prod.case result.case b d ..
qed

lemma demo_GetDigest:
  assumes "api s = NewAPI ''http://localhost:5000''"
  shows "GetDigest (demoEnv c) ''app'' ''v1'' s
      = (Ok ''sha256:aaa'', s\<lparr>sent := sent s @ [headReq ''/v2/app/manifests/v1'']\<rparr>)"
    and "GetDigest (demoEnv c) ''app'' ''v2'' s
      = (Ok ''sha256:aaa'', s\<lparr>sent := sent s @ [headReq ''/v2/app/manifests/v2'']\<rparr>)"
    and "GetDigest (demoEnv c) ''app'' ''latest'' s
      = (Ok ''sha256:bbb'', s\<lparr>sent := sent s @ [headReq ''/v2/app/manifests/latest'']\<rparr>)"
proof -
  let ?ct = "''application/vnd.docker.distribution.manifest.v2+json''"
  have "demoServer (registryReq (NewAPI ''http://localhost:5000'') ''HEAD'' ''/v2/app/manifests/v1'' ?ct)
      = Inr (reply 200 [(''Docker-Content-Digest'', ''sha256:aaa'')] ''manifest aaa'')"
    by (simp add: demoServer_def registryReq_def NewAPI_def)
  from demo_request [OF assms demo_ct2 this]
  show "GetDigest (demoEnv c) ''app'' ''v1'' s
      = (Ok ''sha256:aaa'', s\<lparr>sent := sent s @ [headReq ''/v2/app/manifests/v1'']\<rparr>)"
    by (simp add: GetDigest_def reply_def headReq_def headerGet_def)
  have "demoServer (registryReq (NewAPI ''http://localhost:5000'') ''HEAD'' ''/v2/app/manifests/v2'' ?ct)
      = Inr (reply 200 [(''Docker-Content-Digest'', ''sha256:aaa'')] ''manifest aaa'')"
    by (simp add: demoServer_def registryReq_def NewAPI_def)
  from demo_request [OF assms demo_ct2 this]
  show "GetDigest (demoEnv c) ''app'' ''v2'' s
      = (Ok ''sha256:aaa'', s\<lparr>sent := sent s @ [headReq ''/v2/app/manifests/v2'']\<rparr>)"
    by (simp add: GetDigest_def reply_def headReq_def headerGet_def)
  have "demoServer (registryReq (NewAPI ''http://localhost:5000'') ''HEAD'' ''/v2/app/manifests/latest'' ?ct)
      = Inr (reply 200 [(''Docker-Content-Digest'', ''sha256:bbb'')] ''manifest bbb'')"
    by (simp add: demoServer_def registryReq_def NewAPI_def)
  from demo_request [OF assms demo_ct2 this]
  show "GetDigest (demoEnv c) ''app'' ''latest'' s
      = (Ok ''sha256:bbb'', s\<lparr>sent := sent s @ [headReq ''/v2/app/manifests/latest'']\<rparr>)"
    by (simp add: GetDigest_def reply_def headReq_def headerGet_def)
qed

text \<open>The theorem at the repository \<open>app\<close>.\<close>

theorem GetTagsIndexedByDigest_groups_witness:
  "GetTags (demoEnv 60) ''app'' testState
     = (Ok [''v1'', ''v2'', ''latest''], testState\<lparr>sent := [getReq ''/v2/app/tags/list'']\<rparr>)
   \<and> resolveTags (demoEnv 60) ''app'' [''v1'', ''v2'', ''latest'']
        (testState\<lparr>sent := [getReq ''/v2/app/tags/list'']\<rparr>)
     = (Ok [''sha256:aaa'', ''sha256:aaa'', ''sha256:bbb''],
        testState\<lparr>sent := [getReq ''/v2/app/tags/list'', headReq ''/v2/app/manifests/v1'',
                            headReq ''/v2/app/manifests/v2'', headReq ''/v2/app/manifests/latest'']\<rparr>)
   \<and> (\<exists>m. GetTagsIndexedByDigest (demoEnv 60) ''app'' testState
           = (Ok m, testState\<lparr>sent := [getReq ''/v2/app/tags/list'', headReq ''/v2/app/manifests/v1'',
                            headReq ''/v2/app/manifests/v2'', headReq ''/v2/app/manifests/latest'']\<rparr>)
         \<and> m ''sha256:aaa'' = Some [''v1'', ''v2''] \<and> m ''sha256:bbb'' = Some [''latest'']
         \<and> m ''sha256:ccc'' = None
         \<and> mset (concat (map (tagList m) [''sha256:bbb'', ''sha256:aaa'']))
             = mset [''v1'', ''v2'', ''latest''])"
proof -
  let ?s1 = "testState\<lparr>sent := [getReq ''/v2/app/tags/list'']\<rparr>"
  let ?s2 = "testState\<lparr>sent := [getReq ''/v2/app/tags/list'', headReq ''/v2/app/manifests/v1'',
                            headReq ''/v2/app/manifests/v2'', headReq ''/v2/app/manifests/latest'']\<rparr>"
  have a: "api testState = NewAPI ''http://localhost:5000''" by (simp add: testState_def)
  have t: "GetTags (demoEnv 60) ''app'' testState = (Ok [''v1'', ''v2'', ''latest''], ?s1)"
    using demo_GetTags [OF a] by (simp add: testState_def)
  have r: "resolveTags (demoEnv 60) ''app'' [''v1'', ''v2'', ''latest''] ?s1
      = (Ok [''sha256:aaa'', ''sha256:aaa'', ''sha256:bbb''], ?s2)"
    by (simp add: demo_GetDigest testState_def)
  from GetTagsIndexedByDigest_groups [of "demoEnv 60" "''app''" testState "[''v1'', ''v2'', ''latest'']"
      ?s1 "[''sha256:aaa'', ''sha256:aaa'', ''sha256:bbb'']" ?s2] t r
  obtain m where g: "GetTagsIndexedByDigest (demoEnv 60) ''app'' testState = (Ok m, ?s2)"
    and m: "\<And>d. m d = (if d \<in> set [''sha256:aaa'', ''sha256:aaa'', ''sha256:bbb'']
          then Some (tagsOf d (zip [''sha256:aaa'', ''sha256:aaa'', ''sha256:bbb''] [''v1'', ''v2'', ''latest'']))
          else None)"
    and p: "\<And>ks. distinct ks \<Longrightarrow> set ks = dom m
          \<Longrightarrow> mset (concat (map (tagList m) ks)) = mset [''v1'', ''v2'', ''latest'']"
    by blast
  have d: "dom m = set [''sha256:bbb'', ''sha256:aaa'']"
    unfolding dom_def m by auto
  have "mset (concat (map (tagList m) [''sha256:bbb'', ''sha256:aaa''])) = mset [''v1'', ''v2'', ''latest'']"
    by (rule p) (simp_all add: d)
  moreover have "m ''sha256:aaa'' = Some [''v1'', ''v2'']" "m ''sha256:bbb'' = Some [''latest'']"
    "m ''sha256:ccc'' = None"
    unfolding m by (simp_all add: tagsOf_def)
  ultimately show ?thesis using t r g by blast
qed

subsection \<open>Runs without a deletion\<close>

lemma noDelete_logPrint: "noDelete (logPrint l s) = noDelete s"
  by (simp add: noDelete_def logPrint_def)

lemma noDelete_api: "noDelete (s\<lparr>api := a\<rparr>) = noDelete s"
  by (simp add: noDelete_def)

lemma registryRequest_noDelete:
  "registryRequest E meth path version s = (r, s') \<Longrightarrow> meth \<noteq> ''DELETE'' \<Longrightarrow> noDelete s
     \<Longrightarrow> noDelete s'"
  by (auto simp: registryRequest_def clientDo_def registryReq_def noDelete_def
      split: option.splits prod.splits sum.splits)

lemma fetchBearerToken_noDelete:
  "fetchBearerToken E deniedResponse s = (r, s') \<Longrightarrow> noDelete s \<Longrightarrow> noDelete s'"
  by (auto simp: fetchBearerToken_def clientDo_def tokenReq_def noDelete_def
      split: option.splits prod.splits sum.splits result.splits if_splits)

lemma request_noDelete:
  assumes "request E meth path version s = (r, s')" and "meth \<noteq> ''DELETE''" and "noDelete s"
  shows "noDelete s'"
proof -
  obtain r1 s1 where q1: "registryRequest E meth path version s = (r1, s1)"
    by (cases "registryRequest E meth path version s")
  then have n1: "noDelete s1" using assms(2,3) by (rule registryRequest_noDelete)
  show ?thesis
  proof (cases r1)
    case (Ok resp)
    obtain t s2 where q2: "fetchBearerToken E resp s1 = (t, s2)"
      by (cases "fetchBearerToken E resp s1")
    then have n2: "noDelete s2" using n1 by (rule fetchBearerToken_noDelete)
    show ?thesis
    proof (cases t)
      case tok: (Ok token)
      obtain r3 s3 where q3: "registryRequest E meth path version
          (s2\<lparr>api := (api s2)\<lparr>bearerToken := token\<rparr>\<rparr>) = (r3, s3)"
        by (cases "registryRequest E meth path version (s2\<lparr>api := (api s2)\<lparr>bearerToken := token\<rparr>\<rparr>)")
      then have n3: "noDelete s3"
        using registryRequest_noDelete [OF q3 assms(2)] n2 by (simp add: noDelete_api)
      have "s' = s1 \<or> s' = s3"
        using assms(1) q1 Ok q2 tok q3 by (auto simp: request_def split: if_splits result.splits)
      with n1 n3 show ?thesis by auto
    next
      case (Err e)
      have "s' = s1 \<or> s' = s2"
        using assms(1) q1 Ok q2 Err by (auto simp: request_def split: if_splits)
      with n1 n2 show ?thesis by auto
    next
      case (Panic p)
      have "s' = s1 \<or> s' = s2"
        using assms(1) q1 Ok q2 Panic by (auto simp: request_def split: if_splits)
      with n1 n2 show ?thesis by auto
    qed
  next
    case (Err e)
    with assms(1) q1 have "s' = s1" by (simp add: request_def)
    with n1 show ?thesis by simp
  next
    case (Panic p)
    with assms(1) q1 have "s' = s1" by (simp add: request_def)
    with n1 show ?thesis by simp
  qed
qed

lemma catalogLoop_noDelete:
  "catalogLoop E fuel path repositories s = (r, s') \<Longrightarrow> noDelete s \<Longrightarrow> noDelete s'"
proof (induction fuel arbitrary: path repositories s)
  case 0
  then show ?case by (auto split: if_splits)
next
  case (Suc fuel)
  show ?case
  proof (cases "path = []")
    case True
    with Suc.prems show ?thesis by simp
  next
    case False
    obtain r1 s1 where q: "request E ''GET'' path manifestV2 s = (r1, s1)"
      by (cases "request E ''GET'' path manifestV2 s")
    then have n1: "noDelete s1" using request_noDelete [OF q _ Suc.prems(2)] by simp
    from Suc.prems(1) False q
    have "s' = s1 \<or> (\<exists>p rs. catalogLoop E fuel p rs s1 = (r, s'))"
      by (auto split: result.splits option.splits)
    with n1 Suc.IH show ?thesis by auto
  qed
qed

lemma GetTags_noDelete:
  "GetTags E repository s = (r, s') \<Longrightarrow> noDelete s \<Longrightarrow> noDelete s'"
  by (auto simp: GetTags_def split: prod.splits result.splits
      dest!: request_noDelete)

lemma GetDigest_noDelete:
  "GetDigest E repository tag s = (r, s') \<Longrightarrow> noDelete s \<Longrightarrow> noDelete s'"
  by (auto simp: GetDigest_def split: prod.splits result.splits
      dest!: request_noDelete)

lemma groupTags_noDelete:
  "groupTags E repository tags m s = (r, s') \<Longrightarrow> noDelete s \<Longrightarrow> noDelete s'"
proof (induction tags arbitrary: m s)
  case Nil
  then show ?case by simp
next
  case (Cons tag tags)
  obtain r1 s1 where q: "GetDigest E repository tag s = (r1, s1)"
    by (cases "GetDigest E repository tag s")
  then have n1: "noDelete s1" using Cons.prems(2) by (rule GetDigest_noDelete)
  from Cons.prems(1) q have "s' = s1 \<or> (\<exists>m'. groupTags E repository tags m' s1 = (r, s'))"
    by (auto split: result.splits)
  with n1 Cons.IH show ?case by auto
qed

lemma GetTagsIndexedByDigest_noDelete:
  assumes "GetTagsIndexedByDigest E repository s = (r, s')" and "noDelete s"
  shows "noDelete s'"
proof -
  obtain r1 s1 where q: "GetTags E repository s = (r1, s1)"
    by (cases "GetTags E repository s")
  then have n1: "noDelete s1" using assms(2) by (rule GetTags_noDelete)
  from assms(1) q have "s' = s1 \<or> (\<exists>tags. groupTags E repository tags Map.empty s1 = (r, s'))"
    by (auto simp: GetTagsIndexedByDigest_def split: result.splits)
  with n1 groupTags_noDelete show ?thesis by blast
qed

lemma GetManifestCreated_noDelete:
  assumes "GetManifestCreated E repository tag s = (r, s')" and "noDelete s"
  shows "noDelete s'"
proof -
  obtain r1 s1 where q: "request E ''GET'' (''/v2/'' @ repository @ ''/manifests/'' @ tag) manifestV1 s
      = (r1, s1)"
    by (cases "request E ''GET'' (''/v2/'' @ repository @ ''/manifests/'' @ tag) manifestV1 s")
  then have n1: "noDelete s1" using request_noDelete [OF q _ assms(2)] by simp
  from assms(1) q have "s' = s1"
    by (auto simp: GetManifestCreated_def GetManifestDigestAndCreated_def
        split: result.splits list.splits prod.splits)
  with n1 show ?thesis by simp
qed

lemma deleteOrLog_dry:
  "Dry cfg \<Longrightarrow> deleteOrLog E cfg repository digest tags s
     = (None, logPrint (LogWouldHaveDeleted repository digest tags) s)"
  by (simp add: deleteOrLog_def)

lemma pruneGroup_noDelete:
  assumes "Dry cfg" and "pruneGroup E cfg repository digest tags s = (r, s')" and "noDelete s"
  shows "noDelete s'"
proof (cases "allMatch tags (Tags cfg) \<and> 0 < MinAge cfg \<and> tags \<noteq> []")
  case True
  then obtain tag0 rest where t: "tags = tag0 # rest" by (cases tags) auto
  obtain r1 s1 where q: "GetManifestCreated E repository tag0 s = (r1, s1)"
    by (cases "GetManifestCreated E repository tag0 s")
  then have n1: "noDelete s1" using assms(3) by (rule GetManifestCreated_noDelete)
  from assms(1,2) True t q have "s' = s1 \<or> (\<exists>l. s' = logPrint l s1)"
    by (auto simp: pruneGroup_def deleteOrLog_dry Let_def split: result.splits if_splits)
  with n1 show ?thesis by (auto simp: noDelete_logPrint)
next
  case False
  with assms(1,2) have "s' = s \<or> (\<exists>l. s' = logPrint l s)"
    by (cases tags) (auto simp: pruneGroup_def deleteOrLog_dry split: if_splits)
  with assms(3) show ?thesis by (auto simp: noDelete_logPrint)
qed

lemma pruneGroups_noDelete:
  "Dry cfg \<Longrightarrow> pruneGroups E cfg repository m ds s = (r, s') \<Longrightarrow> noDelete s \<Longrightarrow> noDelete s'"
proof (induction ds arbitrary: s)
  case Nil
  then show ?case by simp
next
  case (Cons digest ds)
  show ?case
  proof (cases "m digest")
    case None
    with Cons show ?thesis by simp
  next
    case (Some tags)
    obtain r1 s1 where q: "pruneGroup E cfg repository digest tags s = (r1, s1)"
      by (cases "pruneGroup E cfg repository digest tags s")
    with Cons.prems have n1: "noDelete s1" using pruneGroup_noDelete by blast
    from Cons.prems(2) Some q have "s' = s1 \<or> pruneGroups E cfg repository m ds s1 = (r, s')"
      by (auto split: option.splits)
    with n1 Cons.IH [OF Cons.prems(1)] show ?thesis by auto
  qed
qed

lemma pruneRepository_noDelete:
  assumes "Dry cfg" and "pruneRepository E cfg repository s = (r, s')" and "noDelete s"
  shows "noDelete s'"
proof (cases "Repos cfg repository")
  case False
  with assms show ?thesis by (simp add: pruneRepository_def)
next
  case True
  obtain r1 s1 where q: "GetTagsIndexedByDigest E repository (logPrint (LogInspecting repository) s)
      = (r1, s1)"
    by (cases "GetTagsIndexedByDigest E repository (logPrint (LogInspecting repository) s)")
  then have n1: "noDelete s1"
    using GetTagsIndexedByDigest_noDelete [OF q] assms(3) by (simp add: noDelete_logPrint)
  from assms(2) True q
  have "s' = s1 \<or> (\<exists>l. s' = logPrint l s1) \<or> (\<exists>m ds. pruneGroups E cfg repository m ds s1 = (r, s'))"
    by (auto simp: pruneRepository_def split: result.splits)
  with n1 pruneGroups_noDelete [OF assms(1)] show ?thesis
    by (auto simp: noDelete_logPrint)
qed

lemma pruneRepositories_noDelete:
  "Dry cfg \<Longrightarrow> pruneRepositories E cfg rs s = (r, s') \<Longrightarrow> noDelete s \<Longrightarrow> noDelete s'"
proof (induction rs arbitrary: s)
  case Nil
  then show ?case by simp
next
  case (Cons repository rs)
  obtain r1 s1 where q: "pruneRepository E cfg repository s = (r1, s1)"
    by (cases "pruneRepository E cfg repository s")
  with Cons.prems have n1: "noDelete s1" using pruneRepository_noDelete by blast
  from Cons.prems(2) q have "s' = s1 \<or> pruneRepositories E cfg rs s1 = (r, s')"
    by (auto split: option.splits)
  with n1 Cons.IH [OF Cons.prems(1)] show ?case by auto
qed

lemma main_noDelete:
  assumes "Dry cfg"
  shows "noDelete (snd (main E cfg fuel w))"
proof -
  have n0: "noDelete (initialState cfg w)" by (simp add: noDelete_def initialState_def)
  obtain r1 s1 where q: "GetRepositories E fuel (initialState cfg w) = (r1, s1)"
    by (cases "GetRepositories E fuel (initialState cfg w)")
  then have n1: "noDelete s1"
    using n0 unfolding GetRepositories_def by (rule catalogLoop_noDelete)
  have "snd (main E cfg fuel w) = s1 \<or> (\<exists>l. snd (main E cfg fuel w) = logPrint l s1)
      \<or> (\<exists>rs r s2. pruneRepositories E cfg rs s1 = (r, s2)
            \<and> (snd (main E cfg fuel w) = s2 \<or> snd (main E cfg fuel w) = logPrint LogDone s2))"
    using q by (auto simp: main_def split: option.splits result.splits prod.splits)
  with n1 pruneRepositories_noDelete [OF assms] show ?thesis
    by (auto simp: noDelete_logPrint)
qed

subsection \<open>The verdict on a group\<close>

text \<open>
  The client does not log: every function of the package leaves the log as it is.
\<close>

lemma registryRequest_logged:
  "registryRequest E meth path version s = (r, s') \<Longrightarrow> logged s' = logged s"
  by (auto simp: registryRequest_def clientDo_def split: option.splits prod.splits sum.splits)

lemma fetchBearerToken_logged:
  "fetchBearerToken E deniedResponse s = (r, s') \<Longrightarrow> logged s' = logged s"
  by (auto simp: fetchBearerToken_def clientDo_def
      split: option.splits prod.splits sum.splits result.splits if_splits)

lemma request_logged:
  assumes "request E meth path version s = (r, s')"
  shows "logged s' = logged s"
proof -
  obtain r1 s1 where q1: "registryRequest E meth path version s = (r1, s1)"
    by (cases "registryRequest E meth path version s")
  then have n1: "logged s1 = logged s" by (rule registryRequest_logged)
  show ?thesis
  proof (cases r1)
    case (Ok resp)
    obtain t s2 where q2: "fetchBearerToken E resp s1 = (t, s2)"
      by (cases "fetchBearerToken E resp s1")
    then have n2: "logged s2 = logged s" using n1 fetchBearerToken_logged by fastforce
    show ?thesis
    proof (cases t)
      case tok: (Ok token)
      obtain r3 s3 where q3: "registryRequest E meth path version
          (s2\<lparr>api := (api s2)\<lparr>bearerToken := token\<rparr>\<rparr>) = (r3, s3)"
        by (cases "registryRequest E meth path version (s2\<lparr>api := (api s2)\<lparr>bearerToken := token\<rparr>\<rparr>)")
      then have n3: "logged s3 = logged s"
        using registryRequest_logged [OF q3] n2 by simp
      have "s' = s1 \<or> s' = s3"
        using assms(1) q1 Ok q2 tok q3 by (auto simp: request_def split: if_splits result.splits)
      with n1 n3 show ?thesis by auto
    next
      case (Err e)
      have "s' = s1 \<or> s' = s2"
        using assms(1) q1 Ok q2 Err by (auto simp: request_def split: if_splits)
      with n1 n2 show ?thesis by auto
    next
      case (Panic p)
      have "s' = s1 \<or> s' = s2"
        using assms(1) q1 Ok q2 Panic by (auto simp: request_def split: if_splits)
      with n1 n2 show ?thesis by auto
    qed
  next
    case (Err e)
    with assms(1) q1 have "s' = s1" by (simp add: request_def)
    with n1 show ?thesis by simp
  next
    case (Panic p)
    with assms(1) q1 have "s' = s1" by (simp add: request_def)
    with n1 show ?thesis by simp
  qed
qed

lemma GetManifestCreated_logged:
  assumes "GetManifestCreated E repository tag s = (r, s')"
  shows "logged s' = logged s"
proof -
  obtain r1 s1 where q: "request E ''GET'' (''/v2/'' @ repository @ ''/manifests/'' @ tag) manifestV1 s
      = (r1, s1)"
    by (cases "request E ''GET'' (''/v2/'' @ repository @ ''/manifests/'' @ tag) manifestV1 s")
  then have n1: "logged s1 = logged s" by (rule request_logged)
  from assms(1) q have "s' = s1"
    by (auto simp: GetManifestCreated_def GetManifestDigestAndCreated_def
        split: result.splits list.splits prod.splits)
  with n1 show ?thesis by simp
qed


lemma allMatch_iff: "allMatch tags expr \<longleftrightarrow> (\<forall>t\<in>set tags. expr t)"
  by (induction tags) auto



















lemma demo_GetTagsIndexedByDigest:
  assumes "api s = NewAPI ''http://localhost:5000''"
  shows "GetTagsIndexedByDigest (demoEnv c) ''app'' s
    = (Ok [''sha256:aaa'' \<mapsto> [''v1'', ''v2''], ''sha256:bbb'' \<mapsto> [''latest'']],
       s\<lparr>sent := sent s @ [getReq ''/v2/app/tags/list'', headReq ''/v2/app/manifests/v1'',
                            headReq ''/v2/app/manifests/v2'', headReq ''/v2/app/manifests/latest'']\<rparr>)"
proof -
  have m: "appendTag (appendTag (appendTag Map.empty ''sha256:aaa'' ''v1'') ''sha256:aaa'' ''v2'')
      ''sha256:bbb'' ''latest''
      = [''sha256:aaa'' \<mapsto> [''v1'', ''v2''], ''sha256:bbb'' \<mapsto> [''latest'']]"
    by (simp add: appendTag_def)
  show ?thesis
    unfolding GetTagsIndexedByDigest_def demo_GetTags [OF assms]
    by (simp add: demo_GetDigest assms m)
qed

lemma demo_GetManifestCreated:
  assumes "api s = NewAPI ''http://localhost:5000''"
  shows "GetManifestCreated (demoEnv c) ''app'' ''v1'' s
    = (Ok c, s\<lparr>sent := sent s @ [getV1Req ''/v2/app/manifests/v1'']\<rparr>)"
proof -
  let ?r = "reply 200 [(''Docker-Content-Digest'', ''sha256:aaa'')] ''manifest aaa''"
  have "demoServer (registryReq (NewAPI ''http://localhost:5000'') ''GET'' ''/v2/app/manifests/v1''
      ''application/vnd.docker.distribution.manifest.v1+prettyjws'') = Inr ?r"
    by (simp add: demoServer_def registryReq_def NewAPI_def)
  from demo_request [OF assms demo_ct1 this]
  have q: "request (demoEnv c) ''GET'' ''/v2/app/manifests/v1'' manifestV1 s
      = (Ok ?r, s\<lparr>sent := sent s @ [getV1Req ''/v2/app/manifests/v1'']\<rparr>)"
    by (simp add: reply_def getV1Req_def)
  have b: "Body ?r = ''manifest aaa''" by (simp add: reply_def)
  have m: \<open>decodeManifest (demoEnv c) ''manifest aaa'' = Ok [''{"created":"A"}'']\<close>
    by (simp add: decodeManifest_def demoEnv_def testEnv_def demoTable_def members_def
        stringField_def)
  have h: \<open>decodeHistoryItem (demoEnv c) ''{"created":"A"}'' = Ok c\<close>
    by (simp add: decodeHistoryItem_def demoEnv_def testEnv_def demoTable_def members_def)
  have p: "''/v2/'' @ ''app'' @ ''/manifests/'' @ ''v1'' = ''/v2/app/manifests/v1''" by simp
  show ?thesis
    unfolding GetManifestCreated_def GetManifestDigestAndCreated_def p q prod.case result.case b m
      list.case h
    by simp
qed





subsection \<open>The dry run\<close>

lemma pruneGroup_dry:
  assumes "Dry cfg" and "\<forall>t\<in>set tags. Tags cfg t" and "oldEnough E cfg repository tags s"
  shows "\<exists>s1. pruneGroup E cfg repository digest tags s
            = (None, logPrint (LogWouldHaveDeleted repository digest tags) s1)
          \<and> logged s1 = logged s"
proof (cases "0 < MinAge cfg")
  case False
  with assms(1,2) have "pruneGroup E cfg repository digest tags s
      = (None, logPrint (LogWouldHaveDeleted repository digest tags) s)"
    by (simp add: pruneGroup_def deleteOrLog_dry allMatch_iff)
  then show ?thesis by blast
next
  case True
  with assms(3) obtain tag0 rest created s1 where t: "tags = tag0 # rest"
    and g: "GetManifestCreated E repository tag0 s = (Ok created, s1)"
    and c: "created \<le> Now E (world s1) - MinAge cfg"
    by (auto simp: oldEnough_def)
  have a: "allMatch (tag0 # rest) (Tags cfg)" using assms(2) t by (simp add: allMatch_iff)
  have "pruneGroup E cfg repository digest tags s
      = (None, logPrint (LogWouldHaveDeleted repository digest tags) s1)"
    unfolding t pruneGroup_def using a True g c assms(1)
    by (simp add: deleteOrLog_dry del: allMatch.simps)
  moreover have "logged s1 = logged s" using g by (rule GetManifestCreated_logged)
  ultimately show ?thesis by blast
qed

text \<open>
  C2. In a dry run the end of the loop body only logs what would have been deleted and
  leaves the state of the client alone; a group that matches the tag filter and is old
  enough gets this line, and nothing else is done for it; and whatever the registry
  answers and however long the catalog is, no request that a run hands to the client has
  the method \<open>DELETE\<close>.
\<close>

theorem dry_run_never_deletes:
  "Dry cfg \<longrightarrow>
     deleteOrLog E cfg repository digest tags s
       = (None, logPrint (LogWouldHaveDeleted repository digest tags) s)
     \<and> ((\<forall>t\<in>set tags. Tags cfg t) \<and> oldEnough E cfg repository tags s
        \<longrightarrow> (\<exists>s1. pruneGroup E cfg repository digest tags s
                    = (None, logPrint (LogWouldHaveDeleted repository digest tags) s1)
                \<and> logged s1 = logged s))
     \<and> list_all (\<lambda>r. Method r \<noteq> ''DELETE'') (sent (snd (main E cfg fuel w)))"
  using pruneGroup_dry [of cfg tags E repository s digest] main_noDelete [of cfg E fuel w]
  by (simp add: deleteOrLog_dry noDelete_def)

lemma demo_GetRepositories:
  assumes "api s = NewAPI ''http://localhost:5000''"
  shows "GetRepositories (demoEnv c) (Suc n) s
    = (Some (Ok [''app'']), s\<lparr>sent := sent s @ [getReq ''/v2/_catalog'']\<rparr>)"
proof -
  let ?r = \<open>reply 200 [] ''{"repositories":["app"]}''\<close>
  have "demoServer (registryReq (NewAPI ''http://localhost:5000'') ''GET'' ''/v2/_catalog''
      ''application/vnd.docker.distribution.manifest.v2+json'') = Inr ?r"
    by (simp add: demoServer_def registryReq_def NewAPI_def)
  from demo_request [OF assms demo_ct2 this]
  have q: "request (demoEnv c) ''GET'' ''/v2/_catalog'' manifestV2 s
      = (Ok ?r, s\<lparr>sent := sent s @ [getReq ''/v2/_catalog'']\<rparr>)"
    by (simp add: reply_def getReq_def)
  have d: "decodeCatalog (demoEnv c) (Body ?r) = Ok [''app'']"
    by (simp add: decodeCatalog_def demoEnv_def testEnv_def demoTable_def members_def
        stringsField_def reply_def)
  have l: "nextPagePath ?r = Ok []" by (simp add: nextPagePath_def headerGet_def reply_def)
  have e: "CloseErr ?r = None" by (simp add: reply_def)
  show ?thesis
    unfolding GetRepositories_def by (simp add: q d l e catalogLoop_done)
qed

text \<open>The theorem at the dry run over the registry of the example.\<close>

theorem dry_run_never_deletes_witness:
  "Dry (demoConfig True)
   \<and> main (demoEnv 60) (demoConfig True) 1 ()
     = (Done,
        \<lparr>api = NewAPI ''http://localhost:5000'', world = (),
         sent = [getReq ''/v2/_catalog'', getReq ''/v2/app/tags/list'',
                 headReq ''/v2/app/manifests/v1'', headReq ''/v2/app/manifests/v2'',
                 headReq ''/v2/app/manifests/latest'', getV1Req ''/v2/app/manifests/v1''],
         logged = [LogConfiguration, LogStarting, LogInspecting ''app'',
                   LogWouldHaveDeleted ''app'' ''sha256:aaa'' [''v1'', ''v2''], LogDone]\<rparr>)
   \<and> list_all (\<lambda>r. Method r \<noteq> ''DELETE'')
        (sent (snd (main (demoEnv 60) (demoConfig True) 1 ())))
   \<and> Tags (demoConfig True) ''v1'' \<and> Tags (demoConfig True) ''v2''
   \<and> oldEnough (demoEnv 60) (demoConfig True) ''app'' [''v1'', ''v2''] testState
   \<and> pruneGroup (demoEnv 60) (demoConfig True) ''app'' ''sha256:aaa'' [''v1'', ''v2''] testState
     = (None, logPrint (LogWouldHaveDeleted ''app'' ''sha256:aaa'' [''v1'', ''v2''])
                (testState\<lparr>sent := [getV1Req ''/v2/app/manifests/v1'']\<rparr>))"
proof -
  let ?cfg = "demoConfig True"
  let ?m = "[''sha256:aaa'' \<mapsto> [''v1'', ''v2''], ''sha256:bbb'' \<mapsto> [''latest'']]"
  have dry: "Dry ?cfg" by (simp add: demoConfig_def)
  have i: "initialState ?cfg ()
      = \<lparr>api = NewAPI ''http://localhost:5000'', world = (), sent = [],
         logged = [LogConfiguration, LogStarting]\<rparr>"
    by (simp add: initialState_def demoConfig_def)
  have o: "rangeOrder (demoEnv 60) w ?m = [''sha256:aaa'', ''sha256:bbb'']" for w
    by (simp add: demoEnv_def testEnv_def)
  have t: "allMatch [''v1'', ''v2''] (Tags ?cfg)" "\<not> allMatch [''latest''] (Tags ?cfg)"
    "0 < MinAge ?cfg" "MinAge ?cfg = 30" "Repos ?cfg ''app''"
    by (simp_all add: demoConfig_def)
  have n: "Now (demoEnv 60) w = 100" for w by (simp add: demoEnv_def testEnv_def)
  have a: "pruneGroup (demoEnv 60) ?cfg ''app'' ''sha256:aaa'' [''v1'', ''v2''] s
      = (None, logPrint (LogWouldHaveDeleted ''app'' ''sha256:aaa'' [''v1'', ''v2''])
                 (s\<lparr>sent := sent s @ [getV1Req ''/v2/app/manifests/v1'']\<rparr>))"
    if "api s = NewAPI ''http://localhost:5000''" for s :: "unit state"
    unfolding pruneGroup_def
    by (simp add: t n demo_GetManifestCreated [OF that] deleteOrLog_dry dry del: allMatch.simps)
  have b: "pruneGroup (demoEnv 60) ?cfg ''app'' ''sha256:bbb'' [''latest''] s = (None, s)"
    for s :: "unit state"
    unfolding pruneGroup_def by (simp add: t del: allMatch.simps)
  have g: "pruneGroups (demoEnv 60) ?cfg ''app'' ?m [''sha256:aaa'', ''sha256:bbb''] s
      = (None, logPrint (LogWouldHaveDeleted ''app'' ''sha256:aaa'' [''v1'', ''v2''])
                 (s\<lparr>sent := sent s @ [getV1Req ''/v2/app/manifests/v1'']\<rparr>))"
    if "api s = NewAPI ''http://localhost:5000''" for s :: "unit state"
    by (simp add: a [OF that] b)
  have r: "pruneRepository (demoEnv 60) ?cfg ''app'' s
      = (None, logPrint (LogWouldHaveDeleted ''app'' ''sha256:aaa'' [''v1'', ''v2''])
           (s\<lparr>sent := sent s @ [getReq ''/v2/app/tags/list'', headReq ''/v2/app/manifests/v1'',
                  headReq ''/v2/app/manifests/v2'', headReq ''/v2/app/manifests/latest'',
                  getV1Req ''/v2/app/manifests/v1''],
               logged := logged s @ [LogInspecting ''app'']\<rparr>))"
    if "api s = NewAPI ''http://localhost:5000''" for s :: "unit state"
  proof -
    have l: "api (logPrint (LogInspecting ''app'') s) = NewAPI ''http://localhost:5000''"
      using that by (simp add: logPrint_def)
    show ?thesis
      unfolding pruneRepository_def demo_GetTagsIndexedByDigest [OF l]
      by (simp add: t o g that logPrint_def del: pruneGroups.simps)
  qed
  have "main (demoEnv 60) ?cfg 1 ()
     = (Done,
        \<lparr>api = NewAPI ''http://localhost:5000'', world = (),
         sent = [getReq ''/v2/_catalog'', getReq ''/v2/app/tags/list'',
                 headReq ''/v2/app/manifests/v1'', headReq ''/v2/app/manifests/v2'',
                 headReq ''/v2/app/manifests/latest'', getV1Req ''/v2/app/manifests/v1''],
         logged = [LogConfiguration, LogStarting, LogInspecting ''app'',
                   LogWouldHaveDeleted ''app'' ''sha256:aaa'' [''v1'', ''v2''], LogDone]\<rparr>)"
    unfolding main_def i by (simp add: demo_GetRepositories r logPrint_def)
  note run = this
  have ts: "api testState = NewAPI ''http://localhost:5000''" by (simp add: testState_def)
  have v: "Tags ?cfg ''v1''" "Tags ?cfg ''v2''" by (simp_all add: demoConfig_def)
  have "GetManifestCreated (demoEnv 60) ''app'' ''v1'' testState
      = (Ok 60, testState\<lparr>sent := [getV1Req ''/v2/app/manifests/v1'']\<rparr>)"
    using demo_GetManifestCreated [OF ts] by (simp add: testState_def)
  moreover have "60 \<le> Now (demoEnv 60) (world (testState\<lparr>sent := [getV1Req ''/v2/app/manifests/v1'']\<rparr>))
      - MinAge ?cfg"
    by (simp add: n t)
  ultimately have old: "oldEnough (demoEnv 60) ?cfg ''app'' [''v1'', ''v2''] testState"
    unfolding oldEnough_def by blast
  have pg: "pruneGroup (demoEnv 60) ?cfg ''app'' ''sha256:aaa'' [''v1'', ''v2''] testState
      = (None, logPrint (LogWouldHaveDeleted ''app'' ''sha256:aaa'' [''v1'', ''v2''])
                 (testState\<lparr>sent := [getV1Req ''/v2/app/manifests/v1'']\<rparr>))"
    using a [OF ts] by (simp add: testState_def)
  from dry dry_run_never_deletes [of ?cfg "demoEnv 60" "''app''" "''sha256:aaa''" "[''v1'', ''v2'']"
      testState 1 "()"]
  have "list_all (\<lambda>r. Method r \<noteq> ''DELETE'') (sent (snd (main (demoEnv 60) ?cfg 1 ())))"
    by simp
  with dry run v old pg show ?thesis by simp
qed

end
